theory Spec2Isabelle
  imports Main "HOL-Library.Sublist" "HOL-Library.Word"
begin

section \<open>Shared vocabulary of the example scripts\<close>

text \<open>
  Every script talks to the vendor client and to the console. Both are effects, so they
  are written into an explicit \<open>world\<close>: the number of remote calls made so far and the
  ordered trace of everything the script did that is visible from outside (lines printed,
  sleeps, client construction, requests). Exceptions are values of the type \<open>exn\<close>; a
  function that may raise returns \<open>exn + 'a\<close> with \<open>Inl\<close> for the exception.

  \<open>RateLimitError\<close> is a subclass of \<open>APIError\<close> in the vendor library; the constructor
  \<open>APIError\<close> stands for the API errors that are not rate-limit errors, which is what an
  \<open>except APIError\<close> clause placed after \<open>except RateLimitError\<close> receives.
  \<open>KeyboardInterrupt\<close> and \<open>SystemExit\<close> are not subclasses of \<open>Exception\<close>.
\<close>

datatype exn =
    RateLimitError string
  | APIError string
  | FileNotFoundError string
  | ValueError string
  | IsADirectoryError string
  | IndexError string
  | OverflowError string
  | Exception string
  | KeyboardInterrupt
  | SystemExit int

fun str :: "exn \<Rightarrow> string" where
  "str (RateLimitError m) = m"
| "str (APIError m) = m"
| "str (FileNotFoundError m) = m"
| "str (ValueError m) = m"
| "str (IsADirectoryError m) = m"
| "str (IndexError m) = m"
| "str (OverflowError m) = m"
| "str (Exception m) = m"
| "str KeyboardInterrupt = []"
| "str (SystemExit c) = []"

fun is_RateLimitError :: "exn \<Rightarrow> bool" where
  "is_RateLimitError (RateLimitError m) = True"
| "is_RateLimitError e = False"

fun is_APIError :: "exn \<Rightarrow> bool" where
  "is_APIError (RateLimitError m) = True"
| "is_APIError (APIError m) = True"
| "is_APIError e = False"

fun is_Exception :: "exn \<Rightarrow> bool" where
  "is_Exception KeyboardInterrupt = False"
| "is_Exception (SystemExit c) = False"
| "is_Exception e = True"

text \<open>Messages: a role and a content, the content a text or a sequence of blocks.\<close>

datatype content_block =
    ImageBlock string string
  | TextBlock string

datatype content = Text string | Blocks "content_block list"

record message =
  role :: string
  content :: content

record request =
  model :: string
  max_tokens :: int
  system :: "string option"
  messages :: "message list"

text \<open>
  A response: the texts of its content blocks, in order, and the usage counts. The
  scripts request neither tools nor thinking, so every block is a text block.
\<close>

record response =
  resp_content :: "string list"
  input_tokens :: int
  output_tokens :: int

text \<open>The lines the scripts print, one constructor per \<open>print\<close> of the source.\<close>

datatype console =
    AttemptMsg int int
  | RateLimitedMsg int
  | MaxRetriesMsg
  | ThrottledMsg int
  | APIErrorMsg string
  | UnexpectedMsg string
  | UsageMsg
  | ExampleMsg
  | BannerMsg string
  | LoadingMsg string
  | ErrorMsg string
  | AnalyzingMsg
  | AnalysisMsg
  | ResponseTextMsg string
  | TokenUsageMsg
  | InputTokensMsg int
  | OutputTokensMsg int
  | PromptMsg string
  | StreamingHeaderMsg

datatype event =
    Print console
  | Write string
  | Sleep int
  | ClientInit
  | Create request
  | StreamOpen request
  | StreamClose

record world =
  calls :: nat
  trace :: "event list"

text \<open>
  The remote service is outside the program: the outcome of a call may depend on how
  many calls were made before it and on the request.
\<close>

type_synonym remote = "nat \<Rightarrow> request \<Rightarrow> exn + response"

definition emit :: "event \<Rightarrow> world \<Rightarrow> world" where
  "emit ev w = w\<lparr>trace := trace w @ [ev]\<rparr>"

definition print_line :: "console \<Rightarrow> world \<Rightarrow> world" where
  "print_line l w = emit (Print l) w"

text \<open>
  \<open>time.sleep\<close> with an integer number of seconds. CPython converts the delay to a signed
  64-bit count of nanoseconds and raises \<open>OverflowError\<close> when it does not fit; a negative
  delay that fits raises \<open>ValueError\<close>. The largest power of two that fits is \<open>2 ^ 33\<close>
  seconds. Whether the operating system accepts a delay that converts is a matter of the
  platform and of its clock; the model takes it to sleep.
\<close>

definition sleep :: "int \<Rightarrow> world \<Rightarrow> exn + world" where
  "sleep secs w =
     (if secs * 1000000000 < - (2 ^ 63) \<or> 2 ^ 63 - 1 < secs * 1000000000 then
        Inl (OverflowError ''timestamp too large to convert to C _PyTime_t'')
      else if secs < 0 then Inl (ValueError ''sleep length must be non-negative'')
      else Inr (emit (Sleep secs) w))"

definition messages_create :: "remote \<Rightarrow> request \<Rightarrow> world \<Rightarrow> (exn + response) \<times> world" where
  "messages_create remote req w =
     (remote (calls w) req, (emit (Create req) w)\<lparr>calls := Suc (calls w)\<rparr>)"

text \<open>What a trace holds: the sleeps in order, the network events, the requests.\<close>

fun sleeps :: "event list \<Rightarrow> int list" where
  "sleeps [] = []"
| "sleeps (Sleep s # evs) = s # sleeps evs"
| "sleeps (ev # evs) = sleeps evs"

fun is_network :: "event \<Rightarrow> bool" where
  "is_network ClientInit = True"
| "is_network (Create req) = True"
| "is_network (StreamOpen req) = True"
| "is_network ev = False"

fun is_Create :: "event \<Rightarrow> bool" where
  "is_Create (Create req) = True"
| "is_Create ev = False"

section \<open>Retry with backoff: \<open>bedrock_error_handling.py\<close>\<close>

definition retry_request :: request where
  "retry_request =
     \<lparr>model = ''global.anthropic.claude-sonnet-4-5-20250929-v1:0'',
      max_tokens = 256,
      system = None,
      messages = [\<lparr>role = ''user'',
                   content = Text ''Explain quantum computing in 2 sentences''\<rparr>]\<rparr>"

text \<open>
  The body of \<open>for attempt in range(max_retries)\<close>, over the attempts still to run. The
  \<open>except\<close> clauses are tried in the order of the source. A throttled last attempt falls
  through to the print and the \<open>raise\<close> that end the \<open>except APIError\<close> clause. An
  exception of \<open>time.sleep\<close> is raised inside an \<open>except\<close> clause, where no other clause
  catches it: it leaves the function. Falling out of the loop reaches the final
  \<open>raise Exception("Failed after max retries")\<close>.
\<close>

fun retry_loop :: "remote \<Rightarrow> int \<Rightarrow> nat list \<Rightarrow> world \<Rightarrow> (exn + response) \<times> world" where
  "retry_loop remote max_retries [] w = (Inl (Exception ''Failed after max retries''), w)"
| "retry_loop remote max_retries (attempt # rest) w =
     (let w1 = print_line (AttemptMsg (int attempt + 1) max_retries) w;
          (r, w2) = messages_create remote retry_request w1
      in case r of
           Inr resp \<Rightarrow> (Inr resp, w2)
         | Inl e \<Rightarrow>
             if is_RateLimitError e then
               (if int attempt < max_retries - 1 then
                  (let wait_time = 2 ^ attempt;
                       w3 = print_line (RateLimitedMsg wait_time) w2
                   in case sleep wait_time w3 of
                        Inl raised \<Rightarrow> (Inl raised, w3)
                      | Inr w4 \<Rightarrow> retry_loop remote max_retries rest w4)
                else (Inl e, print_line MaxRetriesMsg w2))
             else if is_APIError e then
               (let error_msg = str e
                in if sublist ''ThrottlingException'' error_msg then
                     (if int attempt < max_retries - 1 then
                        (let wait_time = 2 ^ attempt;
                             w3 = print_line (ThrottledMsg wait_time) w2
                         in case sleep wait_time w3 of
                              Inl raised \<Rightarrow> (Inl raised, w3)
                            | Inr w4 \<Rightarrow> retry_loop remote max_retries rest w4)
                      else (Inl e, print_line (APIErrorMsg (str e)) w2))
                   else (Inl e, print_line (APIErrorMsg (str e)) w2))
             else if is_Exception e then (Inl e, print_line (UnexpectedMsg (str e)) w2)
             else (Inl e, w2))"

text \<open>\<open>range(max_retries)\<close> is empty when \<open>max_retries\<close> is zero or negative.\<close>

definition py_range :: "int \<Rightarrow> nat list" where
  "py_range n = [0..<nat n]"

definition call_with_retry :: "remote \<Rightarrow> int \<Rightarrow> world \<Rightarrow> (exn + response) \<times> world" where
  "call_with_retry remote max_retries w = retry_loop remote max_retries (py_range max_retries) w"

text \<open>
  An error is retried, attempts remaining, when it is a rate-limit error or an API error
  whose message contains the throttling marker.
\<close>

definition retryable :: "exn \<Rightarrow> bool" where
  "retryable e =
     (is_RateLimitError e \<or> (is_APIError e \<and> sublist ''ThrottlingException'' (str e)))"

definition backoff_msg :: "exn \<Rightarrow> int \<Rightarrow> console" where
  "backoff_msg e s = (if is_RateLimitError e then RateLimitedMsg s else ThrottledMsg s)"

text \<open>
  The events of attempt \<open>a\<close> when its call, the one numbered \<open>c0 + a\<close>, raises a retried
  error: the attempt line, the request, the waiting line and the sleep.
\<close>

definition backoff_round :: "remote \<Rightarrow> int \<Rightarrow> nat \<Rightarrow> nat \<Rightarrow> event list" where
  "backoff_round remote max_retries c0 a =
     [Print (AttemptMsg (int a + 1) max_retries),
      Create retry_request,
      Print (backoff_msg (projl (remote (c0 + a) retry_request)) (2 ^ a)),
      Sleep (2 ^ a)]"

definition rate_limited_round :: "int \<Rightarrow> nat \<Rightarrow> event list" where
  "rate_limited_round max_retries a =
     [Print (AttemptMsg (int a + 1) max_retries),
      Create retry_request,
      Print (RateLimitedMsg (2 ^ a)),
      Sleep (2 ^ a)]"

definition throttled_round :: "int \<Rightarrow> nat \<Rightarrow> event list" where
  "throttled_round max_retries a =
     [Print (AttemptMsg (int a + 1) max_retries),
      Create retry_request,
      Print (ThrottledMsg (2 ^ a)),
      Sleep (2 ^ a)]"

text \<open>What is printed between the failed request and the \<open>raise\<close> that ends the call.\<close>

definition fatal_lines :: "exn \<Rightarrow> event list" where
  "fatal_lines e =
     (if is_RateLimitError e then [Print MaxRetriesMsg]
      else if is_APIError e then [Print (APIErrorMsg (str e))]
      else if is_Exception e then [Print (UnexpectedMsg (str e))]
      else [])"

text \<open>The events of one invocation: what the trace gained between two worlds.\<close>

definition new_events :: "world \<Rightarrow> world \<Rightarrow> event list" where
  "new_events w w' = drop (length (trace w)) (trace w')"

text \<open>The sleeps that answer a throttling-marked API error: each follows its waiting line.\<close>

fun throttle_sleeps :: "event list \<Rightarrow> int list" where
  "throttle_sleeps (Print (ThrottledMsg s) # Sleep s' # evs) = s' # throttle_sleeps evs"
| "throttle_sleeps (ev # evs) = throttle_sleeps evs"
| "throttle_sleeps [] = []"

section \<open>Conversation session: \<open>bedrock_conversation.py\<close>\<close>

record chat_session =
  conversation_history :: "message list"
  self_model :: string
  system_prompt :: string

definition ChatSession_init :: "world \<Rightarrow> chat_session \<times> world" where
  "ChatSession_init w =
     (\<lparr>conversation_history = [],
       self_model = ''global.anthropic.claude-sonnet-4-5-20250929-v1:0'',
       system_prompt = ''You are a helpful assistant. Be concise and clear in your responses.''\<rparr>,
      emit ClientInit w)"

definition user_turn :: "string \<Rightarrow> message" where
  "user_turn t = \<lparr>role = ''user'', content = Text t\<rparr>"

definition assistant_turn :: "string \<Rightarrow> message" where
  "assistant_turn t = \<lparr>role = ''assistant'', content = Text t\<rparr>"

definition chat_request :: "chat_session \<Rightarrow> request" where
  "chat_request s =
     \<lparr>model = self_model s, max_tokens = 512, system = Some (system_prompt s),
      messages = conversation_history s\<rparr>"

text \<open>
  \<open>ChatSession.chat\<close>: the session is mutated in place, so the session after the call is
  returned also when the call raises. \<open>response.content[0]\<close> raises \<open>IndexError\<close> on a
  response without content blocks.
\<close>

definition chat ::
  "remote \<Rightarrow> string \<Rightarrow> chat_session \<Rightarrow> world \<Rightarrow> (exn + string) \<times> chat_session \<times> world" where
  "chat remote user_message s w =
     (let s1 = s\<lparr>conversation_history := conversation_history s @ [user_turn user_message]\<rparr>;
          (r, w1) = messages_create remote (chat_request s1) w
      in case r of
           Inl e \<Rightarrow> (Inl e, s1, w1)
         | Inr resp \<Rightarrow>
             (case resp_content resp of
                [] \<Rightarrow> (Inl (IndexError ''list index out of range''), s1, w1)
              | assistant_message # others \<Rightarrow>
                  (Inr assistant_message,
                   s1\<lparr>conversation_history :=
                        conversation_history s1 @ [assistant_turn assistant_message]\<rparr>,
                   w1)))"




section \<open>Image attachment: \<open>bedrock_vision.py\<close>\<close>

text \<open>
  The file system as the script sees it: a path names a file with its bytes, a directory,
  or nothing. \<open>Path.exists\<close> is true of files and of directories; \<open>open\<close> of a directory
  raises \<open>IsADirectoryError\<close>.
\<close>

type_synonym byte = "8 word"

datatype fs_entry = File "byte list" | Directory

type_synonym filesystem = "string \<Rightarrow> fs_entry option"

text \<open>
  \<open>Path(image_path).suffix\<close> on a POSIX path: the name is the last component that is
  neither empty nor \<open>.\<close>; the suffix starts at the last dot of the name, unless that dot
  is the first or the last character of the name.
\<close>

fun split_on :: "char \<Rightarrow> string \<Rightarrow> string list" where
  "split_on sep [] = [[]]"
| "split_on sep (c # cs) =
     (if c = sep then [] # split_on sep cs
      else (case split_on sep cs of [] \<Rightarrow> [[c]] | p # ps \<Rightarrow> (c # p) # ps))"

definition path_name :: "string \<Rightarrow> string" where
  "path_name p =
     (case filter (\<lambda>c. c \<noteq> [] \<and> c \<noteq> ''.'') (split_on CHR ''/'' p) of
        [] \<Rightarrow> []
      | c # cs \<Rightarrow> last (c # cs))"

definition rfind :: "char \<Rightarrow> string \<Rightarrow> int" where
  "rfind c s =
     (if c \<in> set s then int (length s) - 1 - int (length (takeWhile (\<lambda>x. x \<noteq> c) (rev s)))
      else - 1)"

definition path_suffix :: "string \<Rightarrow> string" where
  "path_suffix p =
     (let name = path_name p; i = rfind CHR ''.'' name
      in if 0 < i \<and> i < int (length name) - 1 then drop (nat i) name else [])"

text \<open>
  \<open>str.lower\<close> on the ASCII letters. The keys of the media-type table are ASCII, and no
  character outside ASCII lowercases to one of their letters, so the lookup below does
  not depend on how other characters are treated.
\<close>

definition lower_char :: "char \<Rightarrow> char" where
  "lower_char c =
     (let n = (of_char c :: nat) in if 65 \<le> n \<and> n \<le> 90 then char_of (n + 32) else c)"

definition lower :: "string \<Rightarrow> string" where
  "lower s = map lower_char s"

definition media_types :: "string \<Rightarrow> string option" where
  "media_types =
     map_of [(''.jpg'', ''image/jpeg''),
             (''.jpeg'', ''image/jpeg''),
             (''.png'', ''image/png''),
             (''.gif'', ''image/gif''),
             (''.webp'', ''image/webp'')]"

text \<open>
  \<open>base64.standard_b64encode\<close> (RFC 4648): three bytes give four characters of the
  alphabet; a final group of one or two bytes is padded with \<open>=\<close>. The result is ASCII,
  so \<open>decode("utf-8")\<close> returns the same characters.
\<close>

definition b64_alphabet :: string where
  "b64_alphabet = ''ABCDEFGHIJKLMNOPQRSTUVWXYZabcdefghijklmnopqrstuvwxyz0123456789+/''"

definition b64_char :: "nat \<Rightarrow> char" where
  "b64_char n = b64_alphabet ! (n mod 64)"

fun standard_b64encode :: "byte list \<Rightarrow> string" where
  "standard_b64encode [] = []"
| "standard_b64encode [a] =
     (let n = unat a * 65536
      in [b64_char (n div 262144), b64_char (n div 4096), CHR ''='', CHR ''=''])"
| "standard_b64encode [a, b] =
     (let n = unat a * 65536 + unat b * 256
      in [b64_char (n div 262144), b64_char (n div 4096), b64_char (n div 64), CHR ''=''])"
| "standard_b64encode (a # b # c # rest) =
     (let n = unat a * 65536 + unat b * 256 + unat c
      in [b64_char (n div 262144), b64_char (n div 4096), b64_char (n div 64), b64_char n]
         @ standard_b64encode rest)"

definition encode_image :: "filesystem \<Rightarrow> string \<Rightarrow> exn + (string \<times> string)" where
  "encode_image fs image_path =
     (if fs image_path = None then
        Inl (FileNotFoundError (''Image file not found: '' @ image_path))
      else
        (let extension = lower (path_suffix image_path)
         in case media_types extension of
              None \<Rightarrow> Inl (ValueError (''Unsupported image type: '' @ extension))
            | Some media_type \<Rightarrow>
                (case fs image_path of
                   Some (File bytes) \<Rightarrow> Inr (standard_b64encode bytes, media_type)
                 | _ \<Rightarrow> Inl (IsADirectoryError image_path))))"

text \<open>
  The \<open>extension\<close> of the source: the suffix of the path, lowercased. The keys of the
  table are the supported extensions.
\<close>

definition image_extension :: "string \<Rightarrow> string" where
  "image_extension image_path = lower (path_suffix image_path)"


definition vision_request :: "string \<Rightarrow> string \<Rightarrow> request" where
  "vision_request image_data media_type =
     \<lparr>model = ''global.anthropic.claude-sonnet-4-5-20250929-v1:0'',
      max_tokens = 512,
      system = None,
      messages =
        [\<lparr>role = ''user'',
          content = Blocks
            [ImageBlock media_type image_data,
             TextBlock ''Describe this image in detail. What do you see? What are the main elements?'']\<rparr>]\<rparr>"

fun is_FileNotFoundError :: "exn \<Rightarrow> bool" where
  "is_FileNotFoundError (FileNotFoundError m) = True"
| "is_FileNotFoundError e = False"

fun is_ValueError :: "exn \<Rightarrow> bool" where
  "is_ValueError (ValueError m) = True"
| "is_ValueError e = False"

text \<open>
  \<open>main\<close> of the vision script. \<open>sys.exit(1)\<close> raises \<open>SystemExit(1)\<close>, which nothing in
  the script catches: the process ends with status 1. An exception of \<open>encode_image\<close>
  other than the two caught ones propagates.
\<close>

definition vision_main :: "remote \<Rightarrow> filesystem \<Rightarrow> string list \<Rightarrow> world \<Rightarrow> (exn + unit) \<times> world" where
  "vision_main remote fs argv w =
     (if length argv < 2 then
        (Inl (SystemExit 1), print_line ExampleMsg (print_line UsageMsg w))
      else
        (let image_path = argv ! 1;
             w1 = print_line (BannerMsg ''AWS Bedrock - Vision/Image Processing'') w;
             w2 = print_line (LoadingMsg image_path) w1
         in case encode_image fs image_path of
              Inl e \<Rightarrow>
                if is_FileNotFoundError e \<or> is_ValueError e then
                  (Inl (SystemExit 1), print_line (ErrorMsg (str e)) w2)
                else (Inl e, w2)
            | Inr (image_data, media_type) \<Rightarrow>
                (let w3 = emit ClientInit w2;
                     w4 = print_line AnalyzingMsg w3;
                     (r, w5) = messages_create remote (vision_request image_data media_type) w4
                 in case r of
                      Inl e \<Rightarrow> (Inl e, w5)
                    | Inr resp \<Rightarrow>
                        (let w6 = print_line AnalysisMsg w5
                         in case resp_content resp of
                              [] \<Rightarrow> (Inl (IndexError ''list index out of range''), w6)
                            | t # others \<Rightarrow>
                                (Inr (),
                                 print_line (OutputTokensMsg (output_tokens resp))
                                   (print_line (InputTokensMsg (input_tokens resp))
                                     (print_line TokenUsageMsg
                                       (print_line (ResponseTextMsg t) w6))))))))"

definition exit_status :: "exn + unit \<Rightarrow> int option" where
  "exit_status r = (case r of Inl (SystemExit c) \<Rightarrow> Some c | _ \<Rightarrow> None)"

section \<open>Streaming consumer: \<open>bedrock_streaming.py\<close>, \<open>vertex_ai_streaming.py\<close>\<close>

text \<open>
  Modelled from the spec: the stream object of the vendor library (\<open>messages.stream\<close>,
  \<open>text_stream\<close>, \<open>get_final_message\<close>), which is not part of the repository. The spec
  describes it as a lazy, finite sequence of text fragments, delivered in arrival order
  and ended by the remote service, with an aggregate final response available once the
  sequence is exhausted. The remote service decides the fragments, whether the sequence
  ends by completion or by an error, and the usage counts; the stream object hands the
  fragments out one at a time and aggregates what it has handed out.
\<close>

record stream_script =
  fragments :: "string list"
  failure :: "exn option"
  script_input_tokens :: int
  script_output_tokens :: int

record message_stream =
  pending :: "string list"
  breaks :: "exn option"
  snapshot :: string
  usage_in :: int
  usage_out :: int

type_synonym stream_remote = "nat \<Rightarrow> request \<Rightarrow> exn + stream_script"

definition messages_stream ::
  "stream_remote \<Rightarrow> request \<Rightarrow> world \<Rightarrow> (exn + message_stream) \<times> world" where
  "messages_stream remote req w =
     (case remote (calls w) req of
        Inl e \<Rightarrow> (Inl e, (emit (StreamOpen req) w)\<lparr>calls := Suc (calls w)\<rparr>)
      | Inr sc \<Rightarrow>
          (Inr \<lparr>pending = fragments sc, breaks = failure sc, snapshot = [],
                usage_in = script_input_tokens sc, usage_out = script_output_tokens sc\<rparr>,
           (emit (StreamOpen req) w)\<lparr>calls := Suc (calls w)\<rparr>))"

definition next_text :: "message_stream \<Rightarrow> (exn + string \<times> message_stream) option" where
  "next_text s =
     (case pending s of
        [] \<Rightarrow> (case breaks s of None \<Rightarrow> None | Some e \<Rightarrow> Some (Inl e))
      | t # ts \<Rightarrow> Some (Inr (t, s\<lparr>pending := ts, snapshot := snapshot s @ t\<rparr>)))"

definition get_final_message :: "message_stream \<Rightarrow> response" where
  "get_final_message s =
     \<lparr>resp_content = [snapshot s @ concat (pending s)],
      input_tokens = usage_in s, output_tokens = usage_out s\<rparr>"

text \<open>
  From the source: \<open>for text in stream.text_stream: print(text, end="", flush=True)\<close>.
  Each fragment is written as it arrives; the loop ends when the stream is exhausted or
  raises.
\<close>

function consume_text_stream ::
  "message_stream \<Rightarrow> world \<Rightarrow> exn option \<times> message_stream \<times> world" where
  "consume_text_stream s w =
     (case next_text s of
        None \<Rightarrow> (None, s, w)
      | Some (Inl e) \<Rightarrow> (Some e, s, w)
      | Some (Inr (text, s')) \<Rightarrow> consume_text_stream s' (emit (Write text) w))"
  by pat_completeness auto
termination
  by (relation "measure (\<lambda>(s, w). length (pending s))")
     (auto simp: next_text_def split: list.splits option.splits)

declare consume_text_stream.simps [simp del]

text \<open>
  The \<open>with\<close> block and the statement after it: the stream is released when the block is
  left, by completion or by an exception; then the final message is read.
\<close>

definition run_stream ::
  "stream_remote \<Rightarrow> request \<Rightarrow> world \<Rightarrow> (exn + response) \<times> world" where
  "run_stream remote req w =
     (case messages_stream remote req w of
        (Inl e, w1) \<Rightarrow> (Inl e, w1)
      | (Inr stream, w1) \<Rightarrow>
          (case consume_text_stream stream w1 of
             (Some e, stream', w2) \<Rightarrow> (Inl e, emit StreamClose w2)
           | (None, stream', w2) \<Rightarrow> (Inr (get_final_message stream'), emit StreamClose w2)))"

definition stream_request :: "string \<Rightarrow> string \<Rightarrow> request" where
  "stream_request model_id prompt =
     \<lparr>model = model_id, max_tokens = 256, system = None,
      messages = [\<lparr>role = ''user'', content = Text prompt\<rparr>]\<rparr>"

definition streaming_main ::
  "string \<Rightarrow> string \<Rightarrow> string \<Rightarrow> stream_remote \<Rightarrow> world \<Rightarrow> (exn + unit) \<times> world" where
  "streaming_main banner model_id prompt remote w =
     (let w1 = emit ClientInit w;
          w2 = print_line (BannerMsg banner) w1;
          w3 = print_line (PromptMsg prompt) w2;
          w4 = print_line StreamingHeaderMsg w3
      in case run_stream remote (stream_request model_id prompt) w4 of
           (Inl e, w5) \<Rightarrow> (Inl e, w5)
         | (Inr final_message, w5) \<Rightarrow>
             (Inr (),
              print_line (OutputTokensMsg (output_tokens final_message))
                (print_line (InputTokensMsg (input_tokens final_message))
                  (print_line TokenUsageMsg w5))))"

definition bedrock_streaming_main :: "stream_remote \<Rightarrow> world \<Rightarrow> (exn + unit) \<times> world" where
  "bedrock_streaming_main =
     streaming_main ''AWS Bedrock - Streaming Response''
       ''global.anthropic.claude-sonnet-4-5-20250929-v1:0''
       ''Write a haiku about artificial intelligence''"

definition vertex_ai_streaming_main :: "stream_remote \<Rightarrow> world \<Rightarrow> (exn + unit) \<times> world" where
  "vertex_ai_streaming_main =
     streaming_main ''Google Vertex AI - Streaming Response''
       ''claude-sonnet-4-5@20250929''
       ''Write a limerick about machine learning''"

text \<open>What a trace wrote to the output without a line end, in order.\<close>

fun written :: "event list \<Rightarrow> string" where
  "written [] = []"
| "written (Write t # evs) = t @ written evs"
| "written (ev # evs) = written evs"

definition response_text :: "response \<Rightarrow> string" where
  "response_text r = concat (resp_content r)"

section \<open>Concrete inputs\<close>

definition world0 :: world where
  "world0 = \<lparr>calls = 0, trace = []\<rparr>"

definition ok_response :: response where
  "ok_response = \<lparr>resp_content = [''ok''], input_tokens = 12, output_tokens = 3\<rparr>"

definition always_rate_limited :: remote where
  "always_rate_limited k req = Inl (RateLimitError ''rate_limit_error'')"

definition rate_limited_twice :: remote where
  "rate_limited_twice k req =
     (if k < 2 then Inl (RateLimitError ''rate_limit_error'') else Inr ok_response)"

definition always_throttled :: remote where
  "always_throttled k req = Inl (APIError ''ThrottlingException: Too many requests'')"

definition throttled_then_denied :: remote where
  "throttled_then_denied k req =
     (if k < 1 then Inl (APIError ''ThrottlingException: Too many requests'')
      else Inl (APIError ''AccessDeniedException''))"

definition rate_limited_then_throttled :: remote where
  "rate_limited_then_throttled k req =
     (if k < 1 then Inl (RateLimitError ''rate_limit_error'')
      else Inl (APIError ''ThrottlingException: Too many requests''))"

definition echo_remote :: remote where
  "echo_remote k req =
     Inr \<lparr>resp_content = [''reply''], input_tokens = int (length (messages req)),
          output_tokens = 1\<rparr>"

definition down_remote :: remote where
  "down_remote k req = Inl (APIError ''Service unavailable'')"

definition one_exchange :: chat_session where
  "one_exchange =
     (fst (ChatSession_init world0))
       \<lparr>conversation_history := [user_turn ''hello'', assistant_turn ''reply'']\<rparr>"

definition photo_fs :: filesystem where
  "photo_fs p =
     (if p = ''photo.png'' \<or> p = ''photo.PNG'' then Some (File [77, 97, 110])
      else if p = ''file.bmp'' then Some (File [66, 77])
      else None)"

definition haiku_stream :: stream_remote where
  "haiku_stream k req =
     Inr \<lparr>fragments = [''Silent '', ''circuits '', ''hum''], failure = None,
          script_input_tokens = 14, script_output_tokens = 5\<rparr>"

section \<open>The retry loop\<close>

lemma sleep_accepted:
  assumes "0 \<le> secs" and "secs \<le> 9223372036"
  shows "sleep secs w = Inr (emit (Sleep secs) w)"
proof -
  have "(2::int) ^ 63 = 9223372036854775808" by simp
  then show ?thesis using assms unfolding sleep_def by (simp only:) auto
qed

lemma sleep_overflow:
  assumes "9223372037 \<le> secs"
  shows "sleep secs w = Inl (OverflowError ''timestamp too large to convert to C _PyTime_t'')"
proof -
  have "(2::int) ^ 63 = 9223372036854775808" by simp
  then show ?thesis using assms unfolding sleep_def by (simp only:) auto
qed

lemma sleep_power_accepted:
  assumes "a \<le> 33"
  shows "sleep (2 ^ a) w = Inr (emit (Sleep (2 ^ a)) w)"
proof -
  have "(2::int) ^ a \<le> 2 ^ 33" using assms by (intro power_increasing) simp_all
  then have "(2::int) ^ a \<le> 9223372036" by simp
  moreover have "(0::int) \<le> 2 ^ a" by simp
  ultimately show ?thesis by (rule sleep_accepted[rotated])
qed

lemma sleep_power_overflow:
  assumes "34 \<le> a"
  shows "sleep (2 ^ a) w = Inl (OverflowError ''timestamp too large to convert to C _PyTime_t'')"
proof -
  have "(2::int) ^ 34 \<le> 2 ^ a" using assms by (intro power_increasing) simp_all
  then have "(9223372037::int) \<le> 2 ^ a" by simp
  then show ?thesis by (rule sleep_overflow)
qed

lemma retry_loop_retry:
  assumes "remote (calls w) retry_request = Inl e" and "retryable e"
    and "int a < max_retries - 1" and "a \<le> 33"
  shows "retry_loop remote max_retries (a # rest) w =
         retry_loop remote max_retries rest
           (w\<lparr>calls := Suc (calls w),
              trace := trace w @ [Print (AttemptMsg (int a + 1) max_retries),
                                  Create retry_request,
                                  Print (backoff_msg e (2 ^ a)), Sleep (2 ^ a)]\<rparr>)"
  using assms
  by (cases e)
     (simp_all add: retryable_def backoff_msg_def messages_create_def
        print_line_def sleep_power_accepted emit_def Let_def)

lemma retry_loop_continue:
  assumes "remote (calls w) retry_request = Inl e" and "retryable e"
    and "int a < max_retries - 1" and "a \<le> 33" and "calls w = c0 + a"
  shows "retry_loop remote max_retries (a # rest) w =
         retry_loop remote max_retries rest
           (w\<lparr>calls := c0 + Suc a,
              trace := trace w @ backoff_round remote max_retries c0 a\<rparr>)"
  using retry_loop_retry[where remote = remote and w = w, OF assms(1-4)] assms(1,5)
  by (simp add: backoff_round_def)

lemma retry_loop_sleep_overflow:
  assumes "remote (calls w) retry_request = Inl e" and "retryable e"
    and "int a < max_retries - 1" and "34 \<le> a"
  shows "retry_loop remote max_retries (a # rest) w =
         (Inl (OverflowError ''timestamp too large to convert to C _PyTime_t''),
          w\<lparr>calls := Suc (calls w),
            trace := trace w @ [Print (AttemptMsg (int a + 1) max_retries),
                                Create retry_request,
                                Print (backoff_msg e (2 ^ a))]\<rparr>)"
  using assms
  by (cases e)
     (simp_all add: retryable_def backoff_msg_def messages_create_def
        print_line_def sleep_power_overflow emit_def Let_def)

lemma retry_loop_prefix:
  assumes "\<forall>i. a \<le> i \<and> i < b \<longrightarrow> (\<exists>e. remote (c0 + i) retry_request = Inl e \<and> retryable e)"
    and "a \<le> b" and "int b \<le> max_retries - 1" and "b \<le> 34" and "calls w = c0 + a"
  shows "retry_loop remote max_retries ([a..<b] @ rest) w =
         retry_loop remote max_retries rest
           (w\<lparr>calls := c0 + b,
              trace := trace w @ concat (map (backoff_round remote max_retries c0) [a..<b])\<rparr>)"
  using assms
proof (induction "b - a" arbitrary: a w)
  case 0
  then have "b = a" by simp
  moreover have "w\<lparr>calls := c0 + a\<rparr> = w" using "0.prems"(5) [symmetric] by simp
  ultimately show ?case by simp
next
  case (Suc d)
  then have ab: "a < b" by simp
  from Suc.prems(1) ab obtain e where e: "remote (c0 + a) retry_request = Inl e" "retryable e"
    by blast
  let ?w = "w\<lparr>calls := c0 + Suc a, trace := trace w @ backoff_round remote max_retries c0 a\<rparr>"
  have step: "retry_loop remote max_retries (a # ([Suc a..<b] @ rest)) w =
              retry_loop remote max_retries ([Suc a..<b] @ rest) ?w"
    using e ab Suc.prems(3,4,5) by (intro retry_loop_continue[where e = e]) auto
  have ih: "retry_loop remote max_retries ([Suc a..<b] @ rest) ?w =
        retry_loop remote max_retries rest
           (?w\<lparr>calls := c0 + b,
              trace := trace ?w @ concat (map (backoff_round remote max_retries c0) [Suc a..<b])\<rparr>)"
    using Suc.hyps(2) Suc.prems ab by (intro Suc.hyps(1)) auto
  show ?case using step ih ab by (simp add: upt_conv_Cons)
qed

lemma retry_loop_success:
  assumes "remote (calls w) retry_request = Inr resp"
  shows "retry_loop remote max_retries (a # rest) w =
         (Inr resp, w\<lparr>calls := Suc (calls w),
                      trace := trace w @ [Print (AttemptMsg (int a + 1) max_retries),
                                          Create retry_request]\<rparr>)"
  using assms by (simp add: messages_create_def print_line_def emit_def)

lemma retry_loop_raise:
  assumes "remote (calls w) retry_request = Inl e"
    and "\<not> retryable e \<or> \<not> int a < max_retries - 1"
  shows "retry_loop remote max_retries (a # rest) w =
         (Inl e, w\<lparr>calls := Suc (calls w),
                   trace := trace w @ [Print (AttemptMsg (int a + 1) max_retries),
                                       Create retry_request] @ fatal_lines e\<rparr>)"
  using assms
  by (cases e)
     (auto simp add: retryable_def fatal_lines_def messages_create_def
        print_line_def emit_def Let_def)

text \<open>From here on the loop is unfolded only through the step lemmas above.\<close>

declare retry_loop.simps(2) [simp del]

lemma sleeps_append: "sleeps (xs @ ys) = sleeps xs @ sleeps ys"
  by (induction xs rule: sleeps.induct) simp_all

lemma sleeps_backoff_rounds:
  "sleeps (concat (map (backoff_round remote max_retries c0) [a..<b])) = map (\<lambda>k. 2 ^ k) [a..<b]"
  by (induction b) (simp_all add: sleeps_append backoff_round_def)

lemma rate_limited_rounds:
  assumes "\<forall>k. a \<le> k \<and> k < b \<longrightarrow> is_RateLimitError (projl (remote (c0 + k) retry_request))"
  shows "map (backoff_round remote max_retries c0) [a..<b] = map (rate_limited_round max_retries) [a..<b]"
  using assms by (simp add: backoff_round_def rate_limited_round_def backoff_msg_def)

lemma throttled_rounds:
  assumes "\<forall>k. a \<le> k \<and> k < b \<longrightarrow> \<not> is_RateLimitError (projl (remote (c0 + k) retry_request))"
  shows "map (backoff_round remote max_retries c0) [a..<b] = map (throttled_round max_retries) [a..<b]"
  using assms by (simp add: backoff_round_def throttled_round_def backoff_msg_def)

lemma py_range_split:
  assumes "int k < max_retries"
  shows "py_range max_retries = [0..<k] @ k # [Suc k..<nat max_retries]"
proof -
  have "k < nat max_retries" using assms by simp
  then have "[0..<nat max_retries] = [0..<k] @ [k..<nat max_retries]"
    by (metis le_add_diff_inverse less_imp_le_nat upt_add_eq_append zero_le)
  also have "[k..<nat max_retries] = k # [Suc k..<nat max_retries]"
    using \<open>k < nat max_retries\<close> by (simp add: upt_conv_Cons)
  finally show ?thesis by (simp add: py_range_def)
qed

lemma call_with_retry_prefix:
  assumes "int k < max_retries" and "k \<le> 34"
    and "\<forall>j<k. \<exists>e. remote (calls w + j) retry_request = Inl e \<and> retryable e"
  shows "call_with_retry remote max_retries w =
         retry_loop remote max_retries (k # [Suc k..<nat max_retries])
           (w\<lparr>calls := calls w + k,
              trace := trace w @ concat (map (backoff_round remote max_retries (calls w)) [0..<k])\<rparr>)"
proof -
  have "retry_loop remote max_retries ([0..<k] @ k # [Suc k..<nat max_retries]) w =
        retry_loop remote max_retries (k # [Suc k..<nat max_retries])
           (w\<lparr>calls := calls w + k,
              trace := trace w @ concat (map (backoff_round remote max_retries (calls w)) [0..<k])\<rparr>)"
    by (rule retry_loop_prefix) (use assms in auto)
  then show ?thesis by (simp add: call_with_retry_def py_range_split[OF assms(1)])
qed

text \<open>
  All attempts but the last retried, and the last one raising: the shape of a call that
  uses up its attempts.
\<close>

lemma call_with_retry_exhausted:
  assumes "1 \<le> max_retries" and "max_retries \<le> 35"
    and "\<forall>k<nat max_retries. \<exists>e. remote (calls w + k) retry_request = Inl e \<and> retryable e"
  shows "call_with_retry remote max_retries w =
         (remote (calls w + (nat max_retries - 1)) retry_request,
          w\<lparr>calls := calls w + nat max_retries,
            trace := trace w
              @ concat (map (backoff_round remote max_retries (calls w)) [0..<nat max_retries - 1])
              @ [Print (AttemptMsg max_retries max_retries), Create retry_request]
              @ fatal_lines (projl (remote (calls w + (nat max_retries - 1)) retry_request))\<rparr>)"
proof -
  define n where "n = nat max_retries - 1"
  have n: "nat max_retries = Suc n" "int n = max_retries - 1" "n \<le> 34"
    using assms(1,2) by (auto simp: n_def)
  obtain e where e: "remote (calls w + n) retry_request = Inl e"
    using assms(3) n(1) by auto
  let ?w1 = "w\<lparr>calls := calls w + n,
              trace := trace w @ concat (map (backoff_round remote max_retries (calls w)) [0..<n])\<rparr>"
  have pre: "call_with_retry remote max_retries w =
             retry_loop remote max_retries (n # [Suc n..<nat max_retries]) ?w1"
    by (rule call_with_retry_prefix) (use assms(3) n in auto)
  have last: "retry_loop remote max_retries (n # [Suc n..<nat max_retries]) ?w1 =
     (Inl e, ?w1\<lparr>calls := Suc (calls ?w1),
        trace := trace ?w1 @ [Print (AttemptMsg (int n + 1) max_retries), Create retry_request]
                 @ fatal_lines e\<rparr>)"
    by (rule retry_loop_raise) (use e n in auto)
  show ?thesis using pre last e n by simp
qed

text \<open>
  The thirty-fifth attempt, when it is retried: \<open>time.sleep\<close> refuses \<open>2 ^ 34\<close> seconds
  and its \<open>OverflowError\<close> ends the call.
\<close>

lemma call_with_retry_sleep_overflow:
  assumes "36 \<le> max_retries"
    and "\<forall>k<35. \<exists>e. remote (calls w + k) retry_request = Inl e \<and> retryable e"
  shows "call_with_retry remote max_retries w =
         (Inl (OverflowError ''timestamp too large to convert to C _PyTime_t''),
          w\<lparr>calls := calls w + 35,
            trace := trace w
              @ concat (map (backoff_round remote max_retries (calls w)) [0..<34])
              @ [Print (AttemptMsg 35 max_retries), Create retry_request,
                 Print (backoff_msg (projl (remote (calls w + 34) retry_request)) (2 ^ 34))]\<rparr>)"
proof -
  obtain e where e: "remote (calls w + 34) retry_request = Inl e" "retryable e"
  proof -
    have "(34::nat) < 35" by simp
    with assms(2) show ?thesis using that by blast
  qed
  let ?w1 = "w\<lparr>calls := calls w + 34,
              trace := trace w @ concat (map (backoff_round remote max_retries (calls w)) [0..<34])\<rparr>"
  have pre: "call_with_retry remote max_retries w =
             retry_loop remote max_retries (34 # [Suc 34..<nat max_retries]) ?w1"
    by (rule call_with_retry_prefix) (use assms in auto)
  have last: "retry_loop remote max_retries (34 # [Suc 34..<nat max_retries]) ?w1 =
     (Inl (OverflowError ''timestamp too large to convert to C _PyTime_t''),
      ?w1\<lparr>calls := Suc (calls ?w1),
        trace := trace ?w1 @ [Print (AttemptMsg (int 34 + 1) max_retries), Create retry_request,
                              Print (backoff_msg e (2 ^ 34))]\<rparr>)"
    by (rule retry_loop_sleep_overflow) (use e assms(1) in auto)
  show ?thesis using pre last e by simp
qed

text \<open>
  C1, as the code has it. With a rate-limit error on every attempt and
  \<open>1 \<le> max_retries \<le> 35\<close>, \<open>call_with_retry\<close> makes exactly \<open>max_retries\<close> requests,
  sleeps \<open>2 ^ k\<close> seconds after the failed attempt \<open>k + 1\<close> for \<open>k = 0, ..., max_retries - 2\<close>
  and at no other time (the last attempt is followed by one printed line only), and raises
  the rate-limit error of the last attempt. From \<open>max_retries = 36\<close> on the delay has no
  cap and \<open>time.sleep\<close> refuses \<open>2 ^ 34\<close> seconds: the call makes 35 requests, sleeps
  \<open>2 ^ 0, ..., 2 ^ 33\<close> seconds and ends with the \<open>OverflowError\<close> of the sleep. With three
  attempts, rate-limit errors on the first two and a response on the third, it sleeps 1
  then 2 seconds and returns that response.
\<close>

theorem call_with_retry_rate_limit_schedule:
  "(1 \<le> max_retries \<and> max_retries \<le> 35 \<and>
    (\<forall>k<nat max_retries. \<exists>m. remote (calls w + k) retry_request = Inl (RateLimitError m))
    \<longrightarrow> (\<exists>w'. call_with_retry remote max_retries w =
                (remote (calls w + (nat max_retries - 1)) retry_request, w')
           \<and> calls w' = calls w + nat max_retries
           \<and> new_events w w' =
               concat (map (rate_limited_round max_retries) [0..<nat max_retries - 1])
               @ [Print (AttemptMsg max_retries max_retries), Create retry_request,
                  Print MaxRetriesMsg]
           \<and> sleeps (new_events w w') = map (\<lambda>k. 2 ^ k) [0..<nat max_retries - 1]))
   \<and>
   (36 \<le> max_retries \<and>
    (\<forall>k<35. \<exists>m. remote (calls w + k) retry_request = Inl (RateLimitError m))
    \<longrightarrow> (\<exists>w'. call_with_retry remote max_retries w =
                (Inl (OverflowError ''timestamp too large to convert to C _PyTime_t''), w')
           \<and> calls w' = calls w + 35
           \<and> new_events w w' =
               concat (map (rate_limited_round max_retries) [0..<34])
               @ [Print (AttemptMsg 35 max_retries), Create retry_request,
                  Print (RateLimitedMsg (2 ^ 34))]
           \<and> sleeps (new_events w w') = map (\<lambda>k. 2 ^ k) [0..<34]))
   \<and>
   (remote (calls w) retry_request = Inl (RateLimitError m1) \<and>
    remote (calls w + 1) retry_request = Inl (RateLimitError m2) \<and>
    remote (calls w + 2) retry_request = Inr resp
    \<longrightarrow> (\<exists>w'. call_with_retry remote 3 w = (Inr resp, w')
           \<and> calls w' = calls w + 3
           \<and> new_events w w' =
               [Print (AttemptMsg 1 3), Create retry_request, Print (RateLimitedMsg 1), Sleep 1,
                Print (AttemptMsg 2 3), Create retry_request, Print (RateLimitedMsg 2), Sleep 2,
                Print (AttemptMsg 3 3), Create retry_request]
           \<and> sleeps (new_events w w') = [1, 2]))"
proof (intro conjI impI)
  assume h: "1 \<le> max_retries \<and> max_retries \<le> 35 \<and>
    (\<forall>k<nat max_retries. \<exists>m. remote (calls w + k) retry_request = Inl (RateLimitError m))"
  define n where "n = nat max_retries - 1"
  have n: "nat max_retries = Suc n" "int n = max_retries - 1" using h by (auto simp: n_def)
  have all: "\<And>k. k \<le> n \<Longrightarrow> \<exists>m. remote (calls w + k) retry_request = Inl (RateLimitError m)"
    using h n by (simp add: less_Suc_eq_le)
  obtain m where m: "remote (calls w + n) retry_request = Inl (RateLimitError m)"
    using all[of n] by auto
  have retried: "\<forall>k<nat max_retries. \<exists>e. remote (calls w + k) retry_request = Inl e \<and> retryable e"
  proof (intro allI impI)
    fix k assume "k < nat max_retries"
    with h obtain m' where "remote (calls w + k) retry_request = Inl (RateLimitError m')"
      by blast
    then show "\<exists>e. remote (calls w + k) retry_request = Inl e \<and> retryable e"
      by (simp add: retryable_def)
  qed
  have run: "call_with_retry remote max_retries w =
         (remote (calls w + (nat max_retries - 1)) retry_request,
          w\<lparr>calls := calls w + nat max_retries,
            trace := trace w
              @ concat (map (backoff_round remote max_retries (calls w)) [0..<nat max_retries - 1])
              @ [Print (AttemptMsg max_retries max_retries), Create retry_request]
              @ fatal_lines (projl (remote (calls w + (nat max_retries - 1)) retry_request))\<rparr>)"
    by (rule call_with_retry_exhausted) (use h retried in auto)
  have rounds: "concat (map (backoff_round remote max_retries (calls w)) [0..<n]) =
                concat (map (rate_limited_round max_retries) [0..<n])"
  proof -
    have "\<forall>k. 0 \<le> k \<and> k < n \<longrightarrow> is_RateLimitError (projl (remote (calls w + k) retry_request))"
    proof (intro allI impI)
      fix k assume "0 \<le> k \<and> k < n"
      then have "k \<le> n" by simp
      from all[OF this] obtain m' where "remote (calls w + k) retry_request = Inl (RateLimitError m')"
        by blast
      then show "is_RateLimitError (projl (remote (calls w + k) retry_request))" by simp
    qed
    then have "map (backoff_round remote max_retries (calls w)) [0..<n] =
               map (rate_limited_round max_retries) [0..<n]"
      by (rule rate_limited_rounds[where a = 0 and b = n and remote = remote and ?c0.0 = "calls w"])
    then show ?thesis by (rule arg_cong)
  qed
  have sl: "sleeps (concat (map (backoff_round remote max_retries (calls w)) [0..<n])) =
            map (\<lambda>k. 2 ^ k) [0..<n]"
    by (rule sleeps_backoff_rounds)
  show "\<exists>w'. call_with_retry remote max_retries w =
                (remote (calls w + (nat max_retries - 1)) retry_request, w')
           \<and> calls w' = calls w + nat max_retries
           \<and> new_events w w' =
               concat (map (rate_limited_round max_retries) [0..<nat max_retries - 1])
               @ [Print (AttemptMsg max_retries max_retries), Create retry_request,
                  Print MaxRetriesMsg]
           \<and> sleeps (new_events w w') = map (\<lambda>k. 2 ^ k) [0..<nat max_retries - 1]"
    using run m n sl rounds
    by (simp add: new_events_def fatal_lines_def sleeps_append)
next
  assume h: "36 \<le> max_retries \<and>
    (\<forall>k<35. \<exists>m. remote (calls w + k) retry_request = Inl (RateLimitError m))"
  have all: "\<And>k. k < 35 \<Longrightarrow> \<exists>m. remote (calls w + k) retry_request = Inl (RateLimitError m)"
    using h by blast
  have retried: "\<forall>k<35. \<exists>e. remote (calls w + k) retry_request = Inl e \<and> retryable e"
  proof (intro allI impI)
    fix k :: nat assume "k < 35"
    from all[OF this] obtain m' where "remote (calls w + k) retry_request = Inl (RateLimitError m')"
      by blast
    then show "\<exists>e. remote (calls w + k) retry_request = Inl e \<and> retryable e"
      by (simp add: retryable_def)
  qed
  have run: "call_with_retry remote max_retries w =
         (Inl (OverflowError ''timestamp too large to convert to C _PyTime_t''),
          w\<lparr>calls := calls w + 35,
            trace := trace w
              @ concat (map (backoff_round remote max_retries (calls w)) [0..<34])
              @ [Print (AttemptMsg 35 max_retries), Create retry_request,
                 Print (backoff_msg (projl (remote (calls w + 34) retry_request)) (2 ^ 34))]\<rparr>)"
    by (rule call_with_retry_sleep_overflow) (use h retried in auto)
  obtain m where m: "remote (calls w + 34) retry_request = Inl (RateLimitError m)"
    using all[of 34] by auto
  have rounds: "concat (map (backoff_round remote max_retries (calls w)) [0..<34]) =
                concat (map (rate_limited_round max_retries) [0..<34])"
  proof -
    have "\<forall>k. 0 \<le> k \<and> k < 34 \<longrightarrow> is_RateLimitError (projl (remote (calls w + k) retry_request))"
    proof (intro allI impI)
      fix k :: nat assume "0 \<le> k \<and> k < 34"
      then have "k < 35" by simp
      from all[OF this] obtain m' where "remote (calls w + k) retry_request = Inl (RateLimitError m')"
        by blast
      then show "is_RateLimitError (projl (remote (calls w + k) retry_request))" by simp
    qed
    then have "map (backoff_round remote max_retries (calls w)) [0..<34] =
               map (rate_limited_round max_retries) [0..<34]"
      by (rule rate_limited_rounds[where a = 0 and b = 34 and remote = remote and ?c0.0 = "calls w"])
    then show ?thesis by (rule arg_cong)
  qed
  have sl: "sleeps (concat (map (backoff_round remote max_retries (calls w)) [0..<34])) =
            map (\<lambda>k. 2 ^ k) [0..<34]"
    by (rule sleeps_backoff_rounds)
  show "\<exists>w'. call_with_retry remote max_retries w =
                (Inl (OverflowError ''timestamp too large to convert to C _PyTime_t''), w')
           \<and> calls w' = calls w + 35
           \<and> new_events w w' =
               concat (map (rate_limited_round max_retries) [0..<34])
               @ [Print (AttemptMsg 35 max_retries), Create retry_request,
                  Print (RateLimitedMsg (2 ^ 34))]
           \<and> sleeps (new_events w w') = map (\<lambda>k. 2 ^ k) [0..<34]"
    using run m sl rounds
    by (simp add: new_events_def backoff_msg_def sleeps_append)
next
  assume h: "remote (calls w) retry_request = Inl (RateLimitError m1) \<and>
    remote (calls w + 1) retry_request = Inl (RateLimitError m2) \<and>
    remote (calls w + 2) retry_request = Inr resp"
  have "[0..<nat 3] = [0, Suc 0, Suc (Suc 0)]" by (simp add: upt_rec numeral_3_eq_3)
  then show "\<exists>w'. call_with_retry remote 3 w = (Inr resp, w')
           \<and> calls w' = calls w + 3
           \<and> new_events w w' =
               [Print (AttemptMsg 1 3), Create retry_request, Print (RateLimitedMsg 1), Sleep 1,
                Print (AttemptMsg 2 3), Create retry_request, Print (RateLimitedMsg 2), Sleep 2,
                Print (AttemptMsg 3 3), Create retry_request]
           \<and> sleeps (new_events w w') = [1, 2]"
    using h
    by (simp add: call_with_retry_def py_range_def new_events_def messages_create_def
          print_line_def sleep_def emit_def retry_loop.simps(2))
qed

text \<open>
  C1, as stated, fails at \<open>max_retries = 36\<close>: with a rate-limit error on every attempt
  the call makes 35 requests, not 36, and ends with the \<open>OverflowError\<close> of
  \<open>time.sleep\<close>, not with the rate-limit error.
\<close>

theorem rate_limit_schedule_counterexample:
  "fst (call_with_retry always_rate_limited 36 world0) =
     Inl (OverflowError ''timestamp too large to convert to C _PyTime_t'')
   \<and> calls (snd (call_with_retry always_rate_limited 36 world0)) = 35"
proof -
  have "call_with_retry always_rate_limited 36 world0 =
         (Inl (OverflowError ''timestamp too large to convert to C _PyTime_t''),
          world0\<lparr>calls := calls world0 + 35,
            trace := trace world0
              @ concat (map (backoff_round always_rate_limited 36 (calls world0)) [0..<34])
              @ [Print (AttemptMsg 35 36), Create retry_request,
                 Print (backoff_msg (projl (always_rate_limited (calls world0 + 34) retry_request))
                          (2 ^ 34))]\<rparr>)"
    by (rule call_with_retry_sleep_overflow)
       (simp_all add: always_rate_limited_def retryable_def)
  then show ?thesis by (simp add: world0_def always_rate_limited_def)
qed

text \<open>
  C1 (amended) at concrete remotes: three attempts, all rate limited; thirty-six
  attempts allowed, all rate limited; and the scenario.
\<close>

theorem call_with_retry_rate_limit_schedule_witness:
  "call_with_retry always_rate_limited 3 world0 =
     (Inl (RateLimitError ''rate_limit_error''),
      \<lparr>calls = 3,
       trace = [Print (AttemptMsg 1 3), Create retry_request, Print (RateLimitedMsg 1), Sleep 1,
                Print (AttemptMsg 2 3), Create retry_request, Print (RateLimitedMsg 2), Sleep 2,
                Print (AttemptMsg 3 3), Create retry_request, Print MaxRetriesMsg]\<rparr>)
   \<and> (\<exists>w'. call_with_retry always_rate_limited 36 world0 =
               (Inl (OverflowError ''timestamp too large to convert to C _PyTime_t''), w')
            \<and> calls w' = 35
            \<and> sleeps (trace w') = map (\<lambda>k. 2 ^ k) [0..<34])
   \<and> call_with_retry rate_limited_twice 3 world0 =
     (Inr ok_response,
      \<lparr>calls = 3,
       trace = [Print (AttemptMsg 1 3), Create retry_request, Print (RateLimitedMsg 1), Sleep 1,
                Print (AttemptMsg 2 3), Create retry_request, Print (RateLimitedMsg 2), Sleep 2,
                Print (AttemptMsg 3 3), Create retry_request]\<rparr>)"
proof -
  have upt: "[0..<2] = [0, Suc 0]" by (simp add: upt_rec numeral_2_eq_2)
  have a: "\<exists>w'. call_with_retry always_rate_limited 3 world0 =
                (Inl (RateLimitError ''rate_limit_error''), w')
           \<and> calls w' = 3
           \<and> trace w' =
               [Print (AttemptMsg 1 3), Create retry_request, Print (RateLimitedMsg 1), Sleep 1,
                Print (AttemptMsg 2 3), Create retry_request, Print (RateLimitedMsg 2), Sleep 2,
                Print (AttemptMsg 3 3), Create retry_request, Print MaxRetriesMsg]"
    using call_with_retry_rate_limit_schedule
            [where max_retries = 3 and remote = always_rate_limited and w = world0,
             THEN conjunct1]
    by (auto simp add: always_rate_limited_def world0_def new_events_def rate_limited_round_def upt)
  have b: "\<exists>w'. call_with_retry always_rate_limited 36 world0 =
               (Inl (OverflowError ''timestamp too large to convert to C _PyTime_t''), w')
            \<and> calls w' = 35
            \<and> sleeps (trace w') = map (\<lambda>k. 2 ^ k) [0..<34]"
    using call_with_retry_rate_limit_schedule
            [where max_retries = 36 and remote = always_rate_limited and w = world0,
             THEN conjunct2, THEN conjunct1]
    by (auto simp add: always_rate_limited_def world0_def new_events_def)
  have c: "\<exists>w'. call_with_retry rate_limited_twice 3 world0 = (Inr ok_response, w')
           \<and> calls w' = 3
           \<and> trace w' =
               [Print (AttemptMsg 1 3), Create retry_request, Print (RateLimitedMsg 1), Sleep 1,
                Print (AttemptMsg 2 3), Create retry_request, Print (RateLimitedMsg 2), Sleep 2,
                Print (AttemptMsg 3 3), Create retry_request]"
    using call_with_retry_rate_limit_schedule
            [where remote = rate_limited_twice and w = world0 and resp = ok_response
               and ?m1.0 = "''rate_limit_error''" and ?m2.0 = "''rate_limit_error''"
               and max_retries = 3, THEN conjunct2, THEN conjunct2]
    by (auto simp add: rate_limited_twice_def world0_def new_events_def)
  from a obtain wa where wa: "call_with_retry always_rate_limited 3 world0 =
                (Inl (RateLimitError ''rate_limit_error''), wa)" "calls wa = 3"
      "trace wa = [Print (AttemptMsg 1 3), Create retry_request, Print (RateLimitedMsg 1), Sleep 1,
                Print (AttemptMsg 2 3), Create retry_request, Print (RateLimitedMsg 2), Sleep 2,
                Print (AttemptMsg 3 3), Create retry_request, Print MaxRetriesMsg]"
    by blast
  from c obtain wc where wc: "call_with_retry rate_limited_twice 3 world0 = (Inr ok_response, wc)"
      "calls wc = 3"
      "trace wc = [Print (AttemptMsg 1 3), Create retry_request, Print (RateLimitedMsg 1), Sleep 1,
                Print (AttemptMsg 2 3), Create retry_request, Print (RateLimitedMsg 2), Sleep 2,
                Print (AttemptMsg 3 3), Create retry_request]"
    by blast
  have "wa = \<lparr>calls = 3, trace = trace wa\<rparr>" using wa(2) by (cases wa) simp
  moreover have "wc = \<lparr>calls = 3, trace = trace wc\<rparr>" using wc(2) by (cases wc) simp
  ultimately show ?thesis using wa wc b by simp
qed

lemma fatal_lines_quiet: "sleeps (fatal_lines e) = [] \<and> filter is_Create (fatal_lines e) = []"
  by (simp add: fatal_lines_def)

text \<open>
  C6. When the attempts before attempt \<open>k + 1\<close> were retried and attempt \<open>k + 1\<close> raises
  an error that is neither a rate-limit error nor an API error carrying the throttling
  marker, \<open>call_with_retry\<close> raises that very error: the request of that attempt is the
  last one, and after it come at most one printed line, no sleep and no request. The
  attempt is one the call can reach: the sleeps before it, \<open>2 ^ j\<close> seconds for \<open>j < k\<close>,
  were accepted by \<open>time.sleep\<close>, which is so for \<open>k \<le> 34\<close>.
\<close>

theorem call_with_retry_fatal_error:
  assumes "int k < max_retries" and "k \<le> 34"
    and "\<forall>j<k. \<exists>e'. remote (calls w + j) retry_request = Inl e' \<and> retryable e'"
    and "remote (calls w + k) retry_request = Inl e"
    and "\<not> retryable e"
  shows "\<exists>w'. call_with_retry remote max_retries w = (Inl e, w')
           \<and> calls w' = calls w + Suc k
           \<and> new_events w w' =
               concat (map (backoff_round remote max_retries (calls w)) [0..<k])
               @ [Print (AttemptMsg (int k + 1) max_retries), Create retry_request]
               @ fatal_lines e
           \<and> sleeps (fatal_lines e) = []
           \<and> filter is_Create (fatal_lines e) = []"
proof -
  let ?w1 = "w\<lparr>calls := calls w + k,
              trace := trace w @ concat (map (backoff_round remote max_retries (calls w)) [0..<k])\<rparr>"
  have "retry_loop remote max_retries (k # [Suc k..<nat max_retries]) ?w1 =
        (Inl e, ?w1\<lparr>calls := Suc (calls ?w1),
                   trace := trace ?w1 @ [Print (AttemptMsg (int k + 1) max_retries),
                                       Create retry_request] @ fatal_lines e\<rparr>)"
    by (rule retry_loop_raise) (use assms in auto)
  with call_with_retry_prefix[where remote = remote and w = w, OF assms(1,2,3)] show ?thesis
    by (simp add: new_events_def fatal_lines_quiet)
qed

lemma throttling_marker:
  "sublist ''ThrottlingException'' ''ThrottlingException: Too many requests''"
  by (simp add: sublist_code)

lemma no_throttling_marker: "\<not> sublist ''ThrottlingException'' ''AccessDeniedException''"
  by (simp add: sublist_code)

text \<open>C6 at a concrete remote: throttled once, then access denied.\<close>

theorem call_with_retry_fatal_error_witness:
  "call_with_retry throttled_then_denied 3 world0 =
     (Inl (APIError ''AccessDeniedException''),
      \<lparr>calls = 2,
       trace = [Print (AttemptMsg 1 3), Create retry_request, Print (ThrottledMsg 1), Sleep 1,
                Print (AttemptMsg 2 3), Create retry_request,
                Print (APIErrorMsg ''AccessDeniedException'')]\<rparr>)"
proof -
  have "\<exists>w'. call_with_retry throttled_then_denied 3 world0 =
               (Inl (APIError ''AccessDeniedException''), w')
           \<and> calls w' = 2
           \<and> trace w' =
               [Print (AttemptMsg 1 3), Create retry_request, Print (ThrottledMsg 1), Sleep 1,
                Print (AttemptMsg 2 3), Create retry_request,
                Print (APIErrorMsg ''AccessDeniedException'')]"
    using call_with_retry_fatal_error
            [where k = 1 and max_retries = 3 and remote = throttled_then_denied and w = world0
               and e = "APIError ''AccessDeniedException''"]
    by (auto simp add: throttled_then_denied_def world0_def retryable_def throttling_marker
          no_throttling_marker new_events_def backoff_round_def backoff_msg_def fatal_lines_def
          numeral_2_eq_2)
  then obtain w' where w': "call_with_retry throttled_then_denied 3 world0 =
               (Inl (APIError ''AccessDeniedException''), w')" "calls w' = 2"
      "trace w' =
               [Print (AttemptMsg 1 3), Create retry_request, Print (ThrottledMsg 1), Sleep 1,
                Print (AttemptMsg 2 3), Create retry_request,
                Print (APIErrorMsg ''AccessDeniedException'')]"
    by blast
  have "w' = \<lparr>calls = 2, trace = trace w'\<rparr>" using w'(2) by (cases w') simp
  then show ?thesis using w' by simp
qed

lemma sleeps_Cons_le: "length (sleeps evs) \<le> length (sleeps (ev # evs))"
  by (cases ev) simp_all

lemma throttle_sleeps_le_sleeps: "length (throttle_sleeps evs) \<le> length (sleeps evs)"
  by (induction evs rule: throttle_sleeps.induct)
     (auto intro: order_trans[OF _ sleeps_Cons_le])

lemma retry_loop_sleeps_bound:
  "\<exists>evs. trace (snd (retry_loop remote max_retries as w)) = trace w @ evs
         \<and> length (sleeps evs) \<le> length (filter (\<lambda>a. int a < max_retries - 1) as)"
proof (induction as arbitrary: w)
  case Nil
  then show ?case by simp
next
  case (Cons a as)
  show ?case
  proof (cases "remote (calls w) retry_request")
    case (Inr resp)
    show ?thesis
      by (simp add: retry_loop_success[where remote = remote and w = w, OF Inr])
  next
    case (Inl e)
    show ?thesis
    proof (cases "retryable e \<and> int a < max_retries - 1")
      case True
      show ?thesis
      proof (cases "a \<le> 33")
        case small: True
        let ?round = "[Print (AttemptMsg (int a + 1) max_retries), Create retry_request,
                       Print (backoff_msg e (2 ^ a)), Sleep (2 ^ a)]"
        have step: "retry_loop remote max_retries (a # as) w =
                    retry_loop remote max_retries as
                      (w\<lparr>calls := Suc (calls w), trace := trace w @ ?round\<rparr>)"
          by (rule retry_loop_retry) (use Inl True small in auto)
        from Cons.IH[of "w\<lparr>calls := Suc (calls w), trace := trace w @ ?round\<rparr>"]
        obtain evs where evs:
          "trace (snd (retry_loop remote max_retries (a # as) w)) = (trace w @ ?round) @ evs"
          "length (sleeps evs) \<le> length (filter (\<lambda>a. int a < max_retries - 1) as)"
          using step by auto
        show ?thesis
        proof (intro exI conjI)
          show "trace (snd (retry_loop remote max_retries (a # as) w)) = trace w @ (?round @ evs)"
            using evs(1) by simp
          show "length (sleeps (?round @ evs))
                \<le> length (filter (\<lambda>a. int a < max_retries - 1) (a # as))"
            using evs(2) True by simp
        qed
      next
        case False
        then have "34 \<le> a" by simp
        with Inl True have "retry_loop remote max_retries (a # as) w =
           (Inl (OverflowError ''timestamp too large to convert to C _PyTime_t''),
            w\<lparr>calls := Suc (calls w),
              trace := trace w @ [Print (AttemptMsg (int a + 1) max_retries),
                                  Create retry_request,
                                  Print (backoff_msg e (2 ^ a))]\<rparr>)"
          by (intro retry_loop_sleep_overflow) auto
        then show ?thesis by simp
      qed
    next
      case False
      then have "\<not> retryable e \<or> \<not> int a < max_retries - 1" by simp
      from retry_loop_raise[where remote = remote and w = w, OF Inl this] show ?thesis
        by (simp add: sleeps_append fatal_lines_quiet)
    qed
  qed
qed

lemma count_below: "length (filter (\<lambda>a. a < k) [0..<m]) = min k m"
  by (induction m) auto

lemma call_with_retry_sleeps_bound:
  "\<exists>evs. trace (snd (call_with_retry remote max_retries w)) = trace w @ evs
         \<and> length (sleeps evs) \<le> nat (max_retries - 1)"
proof -
  have "(\<lambda>a. int a < max_retries - 1) = (\<lambda>a. a < nat (max_retries - 1))" by auto
  then have "length (filter (\<lambda>a. int a < max_retries - 1) (py_range max_retries))
             \<le> nat (max_retries - 1)"
    by (simp add: py_range_def count_below)
  with retry_loop_sleeps_bound[of remote max_retries "py_range max_retries" w]
  show ?thesis unfolding call_with_retry_def by (meson le_trans)
qed

text \<open>Every attempt that is made starts with its line and its request.\<close>

lemma retry_loop_first_request:
  "\<exists>evs. trace (snd (retry_loop remote max_retries (a # rest) w)) =
         trace w @ Print (AttemptMsg (int a + 1) max_retries) # Create retry_request # evs"
proof (cases "remote (calls w) retry_request")
  case (Inr resp)
  show ?thesis
    by (simp add: retry_loop_success[where remote = remote and w = w, OF Inr])
next
  case (Inl e)
  show ?thesis
  proof (cases "retryable e \<and> int a < max_retries - 1")
    case True
    show ?thesis
    proof (cases "a \<le> 33")
      case small: True
      let ?round = "[Print (AttemptMsg (int a + 1) max_retries), Create retry_request,
                     Print (backoff_msg e (2 ^ a)), Sleep (2 ^ a)]"
      have step: "retry_loop remote max_retries (a # rest) w =
                  retry_loop remote max_retries rest
                    (w\<lparr>calls := Suc (calls w), trace := trace w @ ?round\<rparr>)"
        by (rule retry_loop_retry) (use Inl True small in auto)
      from retry_loop_sleeps_bound
             [of remote max_retries rest "w\<lparr>calls := Suc (calls w), trace := trace w @ ?round\<rparr>"]
      obtain evs where
        "trace (snd (retry_loop remote max_retries (a # rest) w)) = (trace w @ ?round) @ evs"
        using step by auto
      then show ?thesis by simp
    next
      case False
      then have "34 \<le> a" by simp
      with Inl True have "retry_loop remote max_retries (a # rest) w =
         (Inl (OverflowError ''timestamp too large to convert to C _PyTime_t''),
          w\<lparr>calls := Suc (calls w),
            trace := trace w @ [Print (AttemptMsg (int a + 1) max_retries),
                                Create retry_request,
                                Print (backoff_msg e (2 ^ a))]\<rparr>)"
        by (intro retry_loop_sleep_overflow) auto
      then show ?thesis by simp
    qed
  next
    case False
    then have "\<not> retryable e \<or> \<not> int a < max_retries - 1" by simp
    from retry_loop_raise[where remote = remote and w = w, OF Inl this] show ?thesis
      by simp
  qed
qed

lemma throttle_sleeps_round:
  "throttle_sleeps (throttled_round max_retries a @ evs) = 2 ^ a # throttle_sleeps evs"
  by (simp add: throttled_round_def)

lemma throttle_sleeps_rounds:
  "throttle_sleeps (concat (map (throttled_round max_retries) [a..<b]) @ evs) =
   map (\<lambda>k. 2 ^ k) [a..<b] @ throttle_sleeps evs"
proof (induction "b - a" arbitrary: a)
  case 0
  then show ?case by simp
next
  case (Suc d)
  then have "a < b" by simp
  moreover have "throttle_sleeps (concat (map (throttled_round max_retries) [Suc a..<b]) @ evs) =
   map (\<lambda>k. 2 ^ k) [Suc a..<b] @ throttle_sleeps evs"
    using Suc by (intro Suc.hyps(1)) simp
  ultimately show ?case by (simp add: upt_conv_Cons throttle_sleeps_round)
qed

lemma throttled_is_retryable:
  "sublist ''ThrottlingException'' m \<Longrightarrow> retryable (APIError m)"
  by (simp add: retryable_def)

text \<open>
  C5, as the code has it. A throttling-marked API error is handled like a rate-limit
  error, on every attempt and whatever retried errors came before it. Raised on attempt
  \<open>k + 1\<close> that is not the last (and \<open>k \<le> 33\<close>, so that \<open>time.sleep\<close> accepts the delay),
  it is answered by one sleep of \<open>2 ^ k\<close> seconds and a retry: the next attempt makes its
  request. Raised on the last attempt, it is printed and raised again, without a sleep.
  One call makes at most \<open>max_retries - 1\<close> sleeps in answer to throttling, and makes all
  of them, \<open>2 ^ 0, ..., 2 ^ (max_retries - 2)\<close> seconds, when every attempt is throttled
  and \<open>max_retries \<le> 35\<close>.
\<close>

theorem call_with_retry_throttling_backoff:
  "(\<exists>evs. trace (snd (call_with_retry remote max_retries w)) = trace w @ evs
          \<and> length (throttle_sleeps evs) \<le> nat (max_retries - 1))
   \<and>
   (k \<le> 33 \<and> int k < max_retries - 1 \<and>
    (\<forall>j<k. \<exists>e. remote (calls w + j) retry_request = Inl e \<and> retryable e) \<and>
    remote (calls w + k) retry_request = Inl (APIError m) \<and> sublist ''ThrottlingException'' m
    \<longrightarrow> (\<exists>r w' evs. call_with_retry remote max_retries w = (r, w')
           \<and> new_events w w' =
               concat (map (backoff_round remote max_retries (calls w)) [0..<k])
               @ throttled_round max_retries k
               @ Print (AttemptMsg (int k + 2) max_retries) # Create retry_request # evs))
   \<and>
   (k \<le> 34 \<and> int k = max_retries - 1 \<and>
    (\<forall>j<k. \<exists>e. remote (calls w + j) retry_request = Inl e \<and> retryable e) \<and>
    remote (calls w + k) retry_request = Inl (APIError m) \<and> sublist ''ThrottlingException'' m
    \<longrightarrow> (\<exists>w'. call_with_retry remote max_retries w = (Inl (APIError m), w')
           \<and> calls w' = calls w + Suc k
           \<and> new_events w w' =
               concat (map (backoff_round remote max_retries (calls w)) [0..<k])
               @ [Print (AttemptMsg max_retries max_retries), Create retry_request,
                  Print (APIErrorMsg m)]))
   \<and>
   (1 \<le> max_retries \<and> max_retries \<le> 35 \<and>
    (\<forall>j<nat max_retries. \<exists>m'. remote (calls w + j) retry_request = Inl (APIError m')
                                \<and> sublist ''ThrottlingException'' m')
    \<longrightarrow> (\<exists>w'. call_with_retry remote max_retries w =
                (remote (calls w + (nat max_retries - 1)) retry_request, w')
           \<and> calls w' = calls w + nat max_retries
           \<and> new_events w w' =
               concat (map (throttled_round max_retries) [0..<nat max_retries - 1])
               @ [Print (AttemptMsg max_retries max_retries), Create retry_request]
               @ fatal_lines (projl (remote (calls w + (nat max_retries - 1)) retry_request))
           \<and> throttle_sleeps (new_events w w') = map (\<lambda>i. 2 ^ i) [0..<nat max_retries - 1]))"
proof (intro conjI impI)
  from call_with_retry_sleeps_bound[of remote max_retries w]
  obtain evs where evs: "trace (snd (call_with_retry remote max_retries w)) = trace w @ evs"
      "length (sleeps evs) \<le> nat (max_retries - 1)"
    by blast
  have "length (throttle_sleeps evs) \<le> nat (max_retries - 1)"
    using throttle_sleeps_le_sleeps[of evs] evs(2) by (rule le_trans)
  with evs(1) show "\<exists>evs. trace (snd (call_with_retry remote max_retries w)) = trace w @ evs
          \<and> length (throttle_sleeps evs) \<le> nat (max_retries - 1)"
    by blast
next
  assume h: "k \<le> 33 \<and> int k < max_retries - 1 \<and>
    (\<forall>j<k. \<exists>e. remote (calls w + j) retry_request = Inl e \<and> retryable e) \<and>
    remote (calls w + k) retry_request = Inl (APIError m) \<and> sublist ''ThrottlingException'' m"
  then have at_k: "remote (calls w + k) retry_request = Inl (APIError m)"
    and marked: "retryable (APIError m)"
    by (simp_all add: throttled_is_retryable)
  have retried: "\<forall>j<Suc k. \<exists>e. remote (calls w + j) retry_request = Inl e \<and> retryable e"
    using h at_k marked by (auto simp: less_Suc_eq)
  let ?rounds = "concat (map (backoff_round remote max_retries (calls w)) [0..<Suc k])"
  let ?w1 = "w\<lparr>calls := calls w + Suc k, trace := trace w @ ?rounds\<rparr>"
  have pre: "call_with_retry remote max_retries w =
             retry_loop remote max_retries (Suc k # [Suc (Suc k)..<nat max_retries]) ?w1"
    by (rule call_with_retry_prefix) (use h retried in auto)
  have round_k: "backoff_round remote max_retries (calls w) k = throttled_round max_retries k"
    using at_k by (simp add: backoff_round_def throttled_round_def backoff_msg_def)
  from retry_loop_first_request
         [of remote max_retries "Suc k" "[Suc (Suc k)..<nat max_retries]" ?w1]
  obtain evs where evs:
    "trace (snd (retry_loop remote max_retries (Suc k # [Suc (Suc k)..<nat max_retries]) ?w1)) =
     trace ?w1 @ Print (AttemptMsg (int (Suc k) + 1) max_retries) # Create retry_request # evs"
    by blast
  have "new_events w (snd (call_with_retry remote max_retries w)) =
               concat (map (backoff_round remote max_retries (calls w)) [0..<k])
               @ throttled_round max_retries k
               @ Print (AttemptMsg (int k + 2) max_retries) # Create retry_request # evs"
    using evs by (simp add: pre new_events_def round_k)
  then show "\<exists>r w' evs. call_with_retry remote max_retries w = (r, w')
           \<and> new_events w w' =
               concat (map (backoff_round remote max_retries (calls w)) [0..<k])
               @ throttled_round max_retries k
               @ Print (AttemptMsg (int k + 2) max_retries) # Create retry_request # evs"
    by (metis prod.collapse)
next
  assume h: "k \<le> 34 \<and> int k = max_retries - 1 \<and>
    (\<forall>j<k. \<exists>e. remote (calls w + j) retry_request = Inl e \<and> retryable e) \<and>
    remote (calls w + k) retry_request = Inl (APIError m) \<and> sublist ''ThrottlingException'' m"
  let ?w1 = "w\<lparr>calls := calls w + k,
              trace := trace w @ concat (map (backoff_round remote max_retries (calls w)) [0..<k])\<rparr>"
  have pre: "call_with_retry remote max_retries w =
             retry_loop remote max_retries (k # [Suc k..<nat max_retries]) ?w1"
    by (rule call_with_retry_prefix) (use h in auto)
  have last: "retry_loop remote max_retries (k # [Suc k..<nat max_retries]) ?w1 =
     (Inl (APIError m), ?w1\<lparr>calls := Suc (calls ?w1),
        trace := trace ?w1 @ [Print (AttemptMsg (int k + 1) max_retries), Create retry_request]
                 @ fatal_lines (APIError m)\<rparr>)"
    by (rule retry_loop_raise) (use h in auto)
  have "int k + 1 = max_retries" using h by simp
  then show "\<exists>w'. call_with_retry remote max_retries w = (Inl (APIError m), w')
           \<and> calls w' = calls w + Suc k
           \<and> new_events w w' =
               concat (map (backoff_round remote max_retries (calls w)) [0..<k])
               @ [Print (AttemptMsg max_retries max_retries), Create retry_request,
                  Print (APIErrorMsg m)]"
    using pre last by (simp add: new_events_def fatal_lines_def)
next
  assume h: "1 \<le> max_retries \<and> max_retries \<le> 35 \<and>
    (\<forall>j<nat max_retries. \<exists>m'. remote (calls w + j) retry_request = Inl (APIError m')
                                \<and> sublist ''ThrottlingException'' m')"
  define n where "n = nat max_retries - 1"
  have n: "nat max_retries = Suc n" "int n = max_retries - 1" using h by (auto simp: n_def)
  have all: "\<And>j. j \<le> n \<Longrightarrow> \<exists>m'. remote (calls w + j) retry_request = Inl (APIError m')
                                \<and> sublist ''ThrottlingException'' m'"
    using h n by (simp add: less_Suc_eq_le)
  obtain m' where m': "remote (calls w + n) retry_request = Inl (APIError m')"
    using all[of n] by auto
  have retried: "\<forall>j<nat max_retries. \<exists>e. remote (calls w + j) retry_request = Inl e \<and> retryable e"
  proof (intro allI impI)
    fix j assume "j < nat max_retries"
    with h obtain m'' where "remote (calls w + j) retry_request = Inl (APIError m'')"
        "sublist ''ThrottlingException'' m''"
      by blast
    then show "\<exists>e. remote (calls w + j) retry_request = Inl e \<and> retryable e"
      by (simp add: retryable_def)
  qed
  have run: "call_with_retry remote max_retries w =
         (remote (calls w + (nat max_retries - 1)) retry_request,
          w\<lparr>calls := calls w + nat max_retries,
            trace := trace w
              @ concat (map (backoff_round remote max_retries (calls w)) [0..<nat max_retries - 1])
              @ [Print (AttemptMsg max_retries max_retries), Create retry_request]
              @ fatal_lines (projl (remote (calls w + (nat max_retries - 1)) retry_request))\<rparr>)"
    by (rule call_with_retry_exhausted) (use h retried in auto)
  have rounds: "concat (map (backoff_round remote max_retries (calls w)) [0..<n]) =
                concat (map (throttled_round max_retries) [0..<n])"
  proof -
    have "\<forall>j. 0 \<le> j \<and> j < n \<longrightarrow> \<not> is_RateLimitError (projl (remote (calls w + j) retry_request))"
    proof (intro allI impI)
      fix j assume "0 \<le> j \<and> j < n"
      then have "j \<le> n" by simp
      from all[OF this] obtain m'' where "remote (calls w + j) retry_request = Inl (APIError m'')"
        by blast
      then show "\<not> is_RateLimitError (projl (remote (calls w + j) retry_request))" by simp
    qed
    then have "map (backoff_round remote max_retries (calls w)) [0..<n] =
               map (throttled_round max_retries) [0..<n]"
      by (rule throttled_rounds[where a = 0 and b = n and remote = remote and ?c0.0 = "calls w"])
    then show ?thesis by (rule arg_cong)
  qed
  have ts: "throttle_sleeps (concat (map (throttled_round max_retries) [0..<n]) @
              [Print (AttemptMsg max_retries max_retries), Create retry_request,
               Print (APIErrorMsg m')]) = map (\<lambda>i. 2 ^ i) [0..<n]"
    by (simp add: throttle_sleeps_rounds)
  show "\<exists>w'. call_with_retry remote max_retries w =
                (remote (calls w + (nat max_retries - 1)) retry_request, w')
           \<and> calls w' = calls w + nat max_retries
           \<and> new_events w w' =
               concat (map (throttled_round max_retries) [0..<nat max_retries - 1])
               @ [Print (AttemptMsg max_retries max_retries), Create retry_request]
               @ fatal_lines (projl (remote (calls w + (nat max_retries - 1)) retry_request))
           \<and> throttle_sleeps (new_events w w') = map (\<lambda>i. 2 ^ i) [0..<nat max_retries - 1]"
    using run m' n ts rounds
    by (simp add: new_events_def fatal_lines_def)
qed

text \<open>
  C5, as stated, fails: with three attempts, all throttled, the call sleeps and retries
  twice in answer to throttling.
\<close>

theorem throttling_backoff_once_counterexample:
  "\<not> length (throttle_sleeps (trace (snd (call_with_retry always_throttled 3 world0)))) \<le> 1"
proof -
  have "[0..<nat 3] = [0, Suc 0, Suc (Suc 0)]" by (simp add: upt_rec numeral_3_eq_3)
  then have "trace (snd (call_with_retry always_throttled 3 world0)) =
     [Print (AttemptMsg 1 3), Create retry_request, Print (ThrottledMsg 1), Sleep 1,
      Print (AttemptMsg 2 3), Create retry_request, Print (ThrottledMsg 2), Sleep 2,
      Print (AttemptMsg 3 3), Create retry_request,
      Print (APIErrorMsg ''ThrottlingException: Too many requests'')]"
    by (simp add: call_with_retry_def py_range_def always_throttled_def world0_def
          messages_create_def print_line_def sleep_def emit_def retry_loop.simps(2)
          throttling_marker)
  then show ?thesis by simp
qed

text \<open>
  C5 (amended) at concrete remotes: three attempts, the first rate limited and the
  others throttled; and three attempts, all throttled.
\<close>

theorem call_with_retry_throttling_backoff_witness:
  "call_with_retry rate_limited_then_throttled 3 world0 =
     (Inl (APIError ''ThrottlingException: Too many requests''),
      \<lparr>calls = 3,
       trace = [Print (AttemptMsg 1 3), Create retry_request, Print (RateLimitedMsg 1), Sleep 1,
                Print (AttemptMsg 2 3), Create retry_request, Print (ThrottledMsg 2), Sleep 2,
                Print (AttemptMsg 3 3), Create retry_request,
                Print (APIErrorMsg ''ThrottlingException: Too many requests'')]\<rparr>)
   \<and> (\<exists>evs. trace (snd (call_with_retry rate_limited_then_throttled 3 world0)) =
               [Print (AttemptMsg 1 3), Create retry_request, Print (RateLimitedMsg 1), Sleep 1,
                Print (AttemptMsg 2 3), Create retry_request, Print (ThrottledMsg 2), Sleep 2,
                Print (AttemptMsg 3 3), Create retry_request] @ evs)
   \<and> call_with_retry always_throttled 3 world0 =
     (Inl (APIError ''ThrottlingException: Too many requests''),
      \<lparr>calls = 3,
       trace = [Print (AttemptMsg 1 3), Create retry_request, Print (ThrottledMsg 1), Sleep 1,
                Print (AttemptMsg 2 3), Create retry_request, Print (ThrottledMsg 2), Sleep 2,
                Print (AttemptMsg 3 3), Create retry_request,
                Print (APIErrorMsg ''ThrottlingException: Too many requests'')]\<rparr>)"
proof -
  have upt: "[0..<2] = [0, Suc 0]" "[0..<Suc 0] = [0]" by (simp_all add: upt_rec numeral_2_eq_2)
  have retried1: "\<forall>j<1. \<exists>e. rate_limited_then_throttled (calls world0 + j) retry_request = Inl e
                            \<and> retryable e"
    by (simp add: rate_limited_then_throttled_def retryable_def)
  have retried2: "\<forall>j<2. \<exists>e. rate_limited_then_throttled (calls world0 + j) retry_request = Inl e
                            \<and> retryable e"
    by (simp add: rate_limited_then_throttled_def retryable_def throttling_marker)
  note t = call_with_retry_throttling_backoff
             [where remote = rate_limited_then_throttled and max_retries = 3 and w = world0
                and m = "''ThrottlingException: Too many requests''"]
  have mid: "\<exists>r w' evs. call_with_retry rate_limited_then_throttled 3 world0 = (r, w')
           \<and> new_events world0 w' =
               concat (map (backoff_round rate_limited_then_throttled 3 (calls world0)) [0..<1])
               @ throttled_round 3 1
               @ Print (AttemptMsg (int 1 + 2) 3) # Create retry_request # evs"
    using t[where k = 1, THEN conjunct2, THEN conjunct1] retried1
    by (simp add: rate_limited_then_throttled_def throttling_marker)
  have last: "\<exists>w'. call_with_retry rate_limited_then_throttled 3 world0 =
                (Inl (APIError ''ThrottlingException: Too many requests''), w')
           \<and> calls w' = calls world0 + Suc 2
           \<and> new_events world0 w' =
               concat (map (backoff_round rate_limited_then_throttled 3 (calls world0)) [0..<2])
               @ [Print (AttemptMsg 3 3), Create retry_request,
                  Print (APIErrorMsg ''ThrottlingException: Too many requests'')]"
    using t[where k = 2, THEN conjunct2, THEN conjunct2, THEN conjunct1] retried2
    by (simp add: rate_limited_then_throttled_def throttling_marker)
  have all: "\<exists>w'. call_with_retry always_throttled 3 world0 =
                (Inl (APIError ''ThrottlingException: Too many requests''), w')
           \<and> calls w' = 3
           \<and> trace w' =
               [Print (AttemptMsg 1 3), Create retry_request, Print (ThrottledMsg 1), Sleep 1,
                Print (AttemptMsg 2 3), Create retry_request, Print (ThrottledMsg 2), Sleep 2,
                Print (AttemptMsg 3 3), Create retry_request,
                Print (APIErrorMsg ''ThrottlingException: Too many requests'')]"
    using call_with_retry_throttling_backoff
            [where max_retries = 3 and remote = always_throttled and w = world0,
             THEN conjunct2, THEN conjunct2, THEN conjunct2]
    by (auto simp add: always_throttled_def world0_def new_events_def throttled_round_def upt
          throttling_marker fatal_lines_def)
  from last obtain wl where wl: "call_with_retry rate_limited_then_throttled 3 world0 =
                (Inl (APIError ''ThrottlingException: Too many requests''), wl)"
      "calls wl = 3"
      "trace wl =
               [Print (AttemptMsg 1 3), Create retry_request, Print (RateLimitedMsg 1), Sleep 1,
                Print (AttemptMsg 2 3), Create retry_request, Print (ThrottledMsg 2), Sleep 2,
                Print (AttemptMsg 3 3), Create retry_request,
                Print (APIErrorMsg ''ThrottlingException: Too many requests'')]"
    by (auto simp add: world0_def new_events_def backoff_round_def backoff_msg_def upt
          rate_limited_then_throttled_def)
  from all obtain wa where wa: "call_with_retry always_throttled 3 world0 =
                (Inl (APIError ''ThrottlingException: Too many requests''), wa)" "calls wa = 3"
      "trace wa =
               [Print (AttemptMsg 1 3), Create retry_request, Print (ThrottledMsg 1), Sleep 1,
                Print (AttemptMsg 2 3), Create retry_request, Print (ThrottledMsg 2), Sleep 2,
                Print (AttemptMsg 3 3), Create retry_request,
                Print (APIErrorMsg ''ThrottlingException: Too many requests'')]"
    by blast
  from mid have mid': "\<exists>evs. trace (snd (call_with_retry rate_limited_then_throttled 3 world0)) =
               [Print (AttemptMsg 1 3), Create retry_request, Print (RateLimitedMsg 1), Sleep 1,
                Print (AttemptMsg 2 3), Create retry_request, Print (ThrottledMsg 2), Sleep 2,
                Print (AttemptMsg 3 3), Create retry_request] @ evs"
    by (auto simp add: world0_def new_events_def backoff_round_def backoff_msg_def upt
          throttled_round_def rate_limited_then_throttled_def)
  have "wl = \<lparr>calls = 3, trace = trace wl\<rparr>" using wl(2) by (cases wl) simp
  moreover have "wa = \<lparr>calls = 3, trace = trace wa\<rparr>" using wa(2) by (cases wa) simp
  ultimately show ?thesis using wl wa mid' by simp
qed

section \<open>The conversation history\<close>






text \<open>
  C9. When the remote call of \<open>chat\<close> raises, \<open>chat\<close> raises the same exception and the
  user message stays in the history: a history of length \<open>2 * n\<close> is left with length
  \<open>2 * n + 1\<close>, its last message the user message just appended.
\<close>

theorem chat_not_atomic_on_error:
  assumes "remote (calls w)
             (chat_request (s\<lparr>conversation_history := conversation_history s @ [user_turn u]\<rparr>))
           = Inl e"
    and "length (conversation_history s) = 2 * n"
  shows "\<exists>s' w'. chat remote u s w = (Inl e, s', w')
           \<and> conversation_history s' = conversation_history s @ [user_turn u]
           \<and> length (conversation_history s') = 2 * n + 1
           \<and> last (conversation_history s') = user_turn u
           \<and> role (last (conversation_history s')) = ''user''"
  using assms by (simp add: chat_def messages_create_def Let_def user_turn_def)



text \<open>C9 at a concrete remote: the service is down after one exchange.\<close>

theorem chat_not_atomic_on_error_witness:
  "\<exists>s' w'. chat down_remote ''again'' one_exchange world0 =
              (Inl (APIError ''Service unavailable''), s', w')
     \<and> conversation_history s' =
          [user_turn ''hello'', assistant_turn ''reply'', user_turn ''again'']
     \<and> length (conversation_history s') = 3
     \<and> role (last (conversation_history s')) = ''user''"
  using chat_not_atomic_on_error
          [where remote = down_remote and w = world0 and s = one_exchange and u = "''again''"
             and e = "APIError ''Service unavailable''" and n = 1]
  by (auto simp add: down_remote_def one_exchange_def)

section \<open>The image attachment\<close>




lemma standard_b64encode_length:
  "length (standard_b64encode bs) = 4 * ((length bs + 2) div 3)"
proof (induction bs rule: standard_b64encode.induct)
  case (4 a b c rest)
  have "(length (a # b # c # rest) + 2) div 3 = Suc ((length rest + 2) div 3)" by simp
  with 4 show ?case by (simp add: Let_def)
qed (simp_all add: Let_def)

lemma standard_b64encode_vectors:
  "standard_b64encode [] = []"
  "standard_b64encode [0x66] = ''Zg==''"
  "standard_b64encode [0x66, 0x6F] = ''Zm8=''"
  "standard_b64encode [0x66, 0x6F, 0x6F] = ''Zm9v''"
  "standard_b64encode [0x66, 0x6F, 0x6F, 0x62] = ''Zm9vYg==''"
  "standard_b64encode [0x66, 0x6F, 0x6F, 0x62, 0x61] = ''Zm9vYmE=''"
  "standard_b64encode [0x66, 0x6F, 0x6F, 0x62, 0x61, 0x72] = ''Zm9vYmFy''"
  by (simp_all add: b64_char_def b64_alphabet_def Let_def)

lemma path_suffix_examples:
  "path_suffix ''photo.png'' = ''.png''"
  "path_suffix ''photo.PNG'' = ''.PNG''"
  "path_suffix ''file.bmp'' = ''.bmp''"
  "path_suffix ''missing.png'' = ''.png''"
  by (simp_all add: path_suffix_def path_name_def rfind_def)

lemma lower_examples:
  "lower ''.png'' = ''.png''" "lower ''.PNG'' = ''.png''" "lower ''.bmp'' = ''.bmp''"
  by (simp_all add: lower_def lower_char_def char_of_def bit_Suc_0_iff)

lemma image_extension_examples:
  "image_extension ''photo.png'' = ''.png''"
  "image_extension ''photo.PNG'' = ''.png''"
  "image_extension ''file.bmp'' = ''.bmp''"
  by (simp_all add: image_extension_def path_suffix_examples lower_examples)




text \<open>
  C8. \<open>main\<close> of the vision script ends with exit status 1 when the path argument is
  missing and when \<open>encode_image\<close> raises \<open>FileNotFoundError\<close> or \<open>ValueError\<close>. In both
  cases it has printed a diagnostic, and has constructed no client and sent no request.
\<close>

theorem vision_main_exits_nonzero:
  "(length argv < 2 \<longrightarrow>
      vision_main remote fs argv w =
        (Inl (SystemExit 1), w\<lparr>trace := trace w @ [Print UsageMsg, Print ExampleMsg]\<rparr>))
   \<and> (2 \<le> length argv \<and> encode_image fs (argv ! 1) = Inl e
        \<and> (is_FileNotFoundError e \<or> is_ValueError e) \<longrightarrow>
      vision_main remote fs argv w =
        (Inl (SystemExit 1),
         w\<lparr>trace := trace w @ [Print (BannerMsg ''AWS Bedrock - Vision/Image Processing''),
                                Print (LoadingMsg (argv ! 1)), Print (ErrorMsg (str e))]\<rparr>))
   \<and> (length argv < 2
        \<or> (\<exists>e'. encode_image fs (argv ! 1) = Inl e' \<and> (is_FileNotFoundError e' \<or> is_ValueError e'))
       \<longrightarrow>
      exit_status (fst (vision_main remote fs argv w)) = Some 1
      \<and> filter is_network (new_events w (snd (vision_main remote fs argv w))) = []
      \<and> calls (snd (vision_main remote fs argv w)) = calls w
      \<and> new_events w (snd (vision_main remote fs argv w)) \<noteq> [])"
proof (intro conjI impI)
  assume "length argv < 2"
  then show "vision_main remote fs argv w =
        (Inl (SystemExit 1), w\<lparr>trace := trace w @ [Print UsageMsg, Print ExampleMsg]\<rparr>)"
    by (simp add: vision_main_def print_line_def emit_def)
next
  assume "2 \<le> length argv \<and> encode_image fs (argv ! 1) = Inl e
        \<and> (is_FileNotFoundError e \<or> is_ValueError e)"
  then show "vision_main remote fs argv w =
        (Inl (SystemExit 1),
         w\<lparr>trace := trace w @ [Print (BannerMsg ''AWS Bedrock - Vision/Image Processing''),
                                Print (LoadingMsg (argv ! 1)), Print (ErrorMsg (str e))]\<rparr>)"
    by (auto simp add: vision_main_def print_line_def emit_def)
next
  assume h: "length argv < 2
        \<or> (\<exists>e'. encode_image fs (argv ! 1) = Inl e' \<and> (is_FileNotFoundError e' \<or> is_ValueError e'))"
  then have "\<exists>evs. vision_main remote fs argv w = (Inl (SystemExit 1), w\<lparr>trace := trace w @ evs\<rparr>)
        \<and> filter is_network evs = [] \<and> evs \<noteq> []"
    by (cases "length argv < 2") (auto simp add: vision_main_def print_line_def emit_def)
  then obtain evs where evs:
      "vision_main remote fs argv w = (Inl (SystemExit 1), w\<lparr>trace := trace w @ evs\<rparr>)"
      "filter is_network evs = []" "evs \<noteq> []"
    by blast
  show "exit_status (fst (vision_main remote fs argv w)) = Some 1"
    by (simp add: evs(1) exit_status_def)
  show "filter is_network (new_events w (snd (vision_main remote fs argv w))) = []"
    by (simp add: evs new_events_def)
  show "calls (snd (vision_main remote fs argv w)) = calls w"
    by (simp add: evs(1))
  show "new_events w (snd (vision_main remote fs argv w)) \<noteq> []"
    by (simp add: evs new_events_def)
qed

text \<open>C8 at concrete arguments: no path, and a path with the extension \<open>.bmp\<close>.\<close>

theorem vision_main_exits_nonzero_witness:
  "vision_main echo_remote photo_fs [''bedrock_vision.py''] world0 =
     (Inl (SystemExit 1), \<lparr>calls = 0, trace = [Print UsageMsg, Print ExampleMsg]\<rparr>)
   \<and> vision_main echo_remote photo_fs [''bedrock_vision.py'', ''file.bmp''] world0 =
     (Inl (SystemExit 1),
      \<lparr>calls = 0,
       trace = [Print (BannerMsg ''AWS Bedrock - Vision/Image Processing''),
                Print (LoadingMsg ''file.bmp''),
                Print (ErrorMsg ''Unsupported image type: .bmp'')]\<rparr>)"
proof -
  have enc: "encode_image photo_fs ''file.bmp'' = Inl (ValueError ''Unsupported image type: .bmp'')"
    using image_extension_examples(3)
    by (simp add: encode_image_def photo_fs_def image_extension_def media_types_def)
  have "vision_main echo_remote photo_fs [''bedrock_vision.py''] world0 =
     (Inl (SystemExit 1), world0\<lparr>trace := trace world0 @ [Print UsageMsg, Print ExampleMsg]\<rparr>)"
    using vision_main_exits_nonzero
            [where argv = "[''bedrock_vision.py'']" and remote = echo_remote and fs = photo_fs
               and w = world0, THEN conjunct1]
    by simp
  moreover have "vision_main echo_remote photo_fs [''bedrock_vision.py'', ''file.bmp''] world0 =
     (Inl (SystemExit 1),
      world0\<lparr>trace := trace world0 @
        [Print (BannerMsg ''AWS Bedrock - Vision/Image Processing''),
         Print (LoadingMsg ''file.bmp''),
         Print (ErrorMsg ''Unsupported image type: .bmp'')]\<rparr>)"
    using vision_main_exits_nonzero
            [where argv = "[''bedrock_vision.py'', ''file.bmp'']" and remote = echo_remote
               and fs = photo_fs and w = world0
               and e = "ValueError ''Unsupported image type: .bmp''",
             THEN conjunct2, THEN conjunct1]
          enc
    by simp
  ultimately show ?thesis by (simp add: world0_def)
qed



















section \<open>The streaming consumer\<close>

lemma written_append: "written (xs @ ys) = written xs @ written ys"
  by (induction xs rule: written.induct) simp_all

lemma consume_complete:
  assumes "breaks s = None"
  shows "consume_text_stream s w =
         (None,
          s\<lparr>pending := [], snapshot := snapshot s @ concat (pending s)\<rparr>,
          w\<lparr>trace := trace w @ map Write (pending s)\<rparr>)"
  using assms
proof (induction "pending s" arbitrary: s w)
  case Nil
  then have "pending s = []" by simp
  moreover from this have "s\<lparr>pending := [], snapshot := snapshot s @ concat (pending s)\<rparr> = s"
    by simp
  ultimately show ?case using Nil.prems
    by (subst consume_text_stream.simps) (simp add: next_text_def)
next
  case (Cons t ts)
  let ?s1 = "s\<lparr>pending := ts, snapshot := snapshot s @ t\<rparr>"
  have p: "pending s = t # ts" using Cons.hyps(2) by simp
  have step: "consume_text_stream s w = consume_text_stream ?s1 (emit (Write t) w)"
    using p by (subst consume_text_stream.simps) (simp add: next_text_def)
  have "consume_text_stream ?s1 (emit (Write t) w) =
        (None,
         ?s1\<lparr>pending := [], snapshot := snapshot ?s1 @ concat (pending ?s1)\<rparr>,
         (emit (Write t) w)\<lparr>trace := trace (emit (Write t) w) @ map Write (pending ?s1)\<rparr>)"
    by (rule Cons.hyps(1)) (use Cons.prems in simp_all)
  with step p show ?case by (simp add: emit_def)
qed

lemma written_writes: "written (map Write ts) = concat ts"
  by (induction ts) simp_all

lemma run_stream_complete:
  assumes "remote (calls w) req = Inr sc" and "failure sc = None"
  shows "run_stream remote req w =
         (Inr \<lparr>resp_content = [concat (fragments sc)],
               input_tokens = script_input_tokens sc,
               output_tokens = script_output_tokens sc\<rparr>,
          w\<lparr>calls := Suc (calls w),
            trace := trace w @ StreamOpen req # map Write (fragments sc) @ [StreamClose]\<rparr>)"
proof -
  let ?s = "\<lparr>pending = fragments sc, breaks = failure sc, snapshot = [],
             usage_in = script_input_tokens sc, usage_out = script_output_tokens sc\<rparr>"
  let ?w1 = "w\<lparr>trace := trace w @ [StreamOpen req], calls := Suc (calls w)\<rparr>"
  have opened: "messages_stream remote req w = (Inr ?s, ?w1)"
    using assms(1) by (simp add: messages_stream_def emit_def)
  have "breaks ?s = None" using assms(2) by simp
  from consume_complete[OF this, of ?w1]
  have loop: "consume_text_stream ?s ?w1 =
         (None, ?s\<lparr>pending := [], snapshot := concat (fragments sc)\<rparr>,
          ?w1\<lparr>trace := trace ?w1 @ map Write (fragments sc)\<rparr>)"
    by simp
  show ?thesis
    by (simp add: run_stream_def opened loop get_final_message_def emit_def)
qed

text \<open>
  C7. When the stream delivers a finite sequence of fragments and then completes, the
  consumer writes exactly these fragments, in arrival order, between opening and
  releasing the stream, and the text it has written is the text of the final message
  read afterwards. This holds for the consumer of both streaming scripts, which run to
  their end.
\<close>

theorem streamed_text_equals_final_text:
  assumes "\<forall>req. remote (calls w) req = Inr sc" and "failure sc = None"
  shows "(\<exists>final w'. run_stream remote req w = (Inr final, w')
            \<and> new_events w w' = StreamOpen req # map Write (fragments sc) @ [StreamClose]
            \<and> written (new_events w w') = concat (fragments sc)
            \<and> written (new_events w w') = response_text final)
       \<and> written (new_events w (snd (bedrock_streaming_main remote w))) = concat (fragments sc)
       \<and> fst (bedrock_streaming_main remote w) = Inr ()
       \<and> written (new_events w (snd (vertex_ai_streaming_main remote w))) = concat (fragments sc)
       \<and> fst (vertex_ai_streaming_main remote w) = Inr ()"
proof (intro conjI)
  have r: "\<And>req w0. calls w0 = calls w \<Longrightarrow> run_stream remote req w0 =
         (Inr \<lparr>resp_content = [concat (fragments sc)],
               input_tokens = script_input_tokens sc,
               output_tokens = script_output_tokens sc\<rparr>,
          w0\<lparr>calls := Suc (calls w0),
            trace := trace w0 @ StreamOpen req # map Write (fragments sc) @ [StreamClose]\<rparr>)"
    using assms by (intro run_stream_complete) simp_all
  show "\<exists>final w'. run_stream remote req w = (Inr final, w')
            \<and> new_events w w' = StreamOpen req # map Write (fragments sc) @ [StreamClose]
            \<and> written (new_events w w') = concat (fragments sc)
            \<and> written (new_events w w') = response_text final"
    by (simp add: r new_events_def written_append written_writes response_text_def)
  have m: "\<And>banner model_id prompt.
      fst (streaming_main banner model_id prompt remote w) = Inr ()
      \<and> written (new_events w (snd (streaming_main banner model_id prompt remote w)))
          = concat (fragments sc)"
    by (simp add: streaming_main_def Let_def r print_line_def emit_def new_events_def
          written_append written_writes)
  show "written (new_events w (snd (bedrock_streaming_main remote w))) = concat (fragments sc)"
    by (simp add: bedrock_streaming_main_def m)
  show "fst (bedrock_streaming_main remote w) = Inr ()"
    by (simp add: bedrock_streaming_main_def m)
  show "written (new_events w (snd (vertex_ai_streaming_main remote w))) = concat (fragments sc)"
    by (simp add: vertex_ai_streaming_main_def m)
  show "fst (vertex_ai_streaming_main remote w) = Inr ()"
    by (simp add: vertex_ai_streaming_main_def m)
qed

text \<open>C7 at a concrete stream of three fragments.\<close>

theorem streamed_text_equals_final_text_witness:
  "\<exists>final w'. run_stream haiku_stream
                 (stream_request ''global.anthropic.claude-sonnet-4-5-20250929-v1:0''
                    ''Write a haiku about artificial intelligence'') world0 = (Inr final, w')
     \<and> written (trace w') = ''Silent circuits hum''
     \<and> response_text final = ''Silent circuits hum''"
  using streamed_text_equals_final_text
          [where remote = haiku_stream and w = world0
             and sc = "\<lparr>fragments = [''Silent '', ''circuits '', ''hum''], failure = None,
                         script_input_tokens = 14, script_output_tokens = 5\<rparr>"
             and req = "stream_request ''global.anthropic.claude-sonnet-4-5-20250929-v1:0''
                          ''Write a haiku about artificial intelligence''",
           THEN conjunct1]
  by (auto simp add: haiku_stream_def world0_def new_events_def)

end
